theory Spec2Isabelle
  imports
    Complex_Main
    "HOL-Library.Log_Nat"
    "HOL-Library.Multiset"
    "HOL-Library.Char_ord"
    "HOL-Library.List_Lexorder"
begin

section \<open>BMI calculator: the calculator core and the record store\<close>

text \<open>
  A shallow embedding of class \<open>BMICalculator\<close> of \<^verbatim>\<open>bmi_calculator.py\<close>
  (\<open>calculate_bmi\<close>, \<open>classify_bmi\<close>, \<open>validate_input\<close>, \<open>init_database\<close>,
  \<open>save_to_database\<close>, \<open>get_user_history\<close>, \<open>get_all_users\<close>) and of the GUI handler
  \<open>calculate_bmi_gui\<close> that chains them. Widgets, message boxes, charts and \<open>print\<close>
  output are not modelled.

  The program rests on three things outside its source whose results the source does not
  determine: the C library's \<open>pow\<close>, which CPython calls for \<open>**\<close>; SQLite's conversion
  of text bound to a \<open>REAL\<close> column; and the Unicode tables behind \<open>str.strip\<close> and
  \<open>float\<close>. They are the components of a \<open>platform\<close>, a parameter of every function that
  depends on one of them.
\<close>

subsection \<open>Python floats\<close>

text \<open>
  A Python \<open>float\<close> is an IEEE 754 binary64 value: a finite number, one of the two
  infinities, or NaN. Finite values are carried as the real number they denote; the two
  zeros are identified (the program never observes the sign of a zero).
\<close>

datatype pyfloat = NaN | NegInf | Fin real | PosInf

text \<open>Comparisons: every comparison with NaN is false.\<close>

fun flt_lt :: "pyfloat \<Rightarrow> pyfloat \<Rightarrow> bool" where
  "flt_lt NaN _ = False"
| "flt_lt _ NaN = False"
| "flt_lt (Fin x) (Fin y) = (x < y)"
| "flt_lt NegInf NegInf = False"
| "flt_lt NegInf _ = True"
| "flt_lt _ NegInf = False"
| "flt_lt PosInf _ = False"
| "flt_lt _ PosInf = True"

fun flt_le :: "pyfloat \<Rightarrow> pyfloat \<Rightarrow> bool" where
  "flt_le NaN _ = False"
| "flt_le _ NaN = False"
| "flt_le (Fin x) (Fin y) = (x \<le> y)"
| "flt_le NegInf _ = True"
| "flt_le _ PosInf = True"
| "flt_le _ NegInf = False"
| "flt_le PosInf _ = False"

text \<open>
  Arithmetic results are rounded to the nearest binary64 value, ties to the even mantissa
  (the IEEE 754 default, which CPython uses). \<open>fl x\<close> is that rounding of the exact real
  \<open>x\<close>: 53 significant bits for normal numbers, multiples of \<open>2\<^sup>-\<^sup>1\<^sup>0\<^sup>7\<^sup>4\<close> below
  \<open>2\<^sup>-\<^sup>1\<^sup>0\<^sup>2\<^sup>2\<close> (subnormals, and 0 when the value underflows), and an infinity when the
  rounded magnitude reaches \<open>2\<^sup>1\<^sup>0\<^sup>2\<^sup>4\<close>.
\<close>

definition round_half_even :: "real \<Rightarrow> int" where
  "round_half_even x =
     (let f = \<lfloor>x\<rfloor>; d = x - of_int f
      in if d < 1 / 2 then f else if 1 / 2 < d then f + 1 else if even f then f else f + 1)"

definition ilog2 :: "real \<Rightarrow> int" where
  \<comment> \<open>the floor of the binary logarithm of a positive real\<close>
  "ilog2 a =
     (if 1 \<le> a then int (floorlog 2 (nat \<lfloor>a\<rfloor>)) - 1
      else - int (floorlog 2 (nat (\<lceil>1 / a\<rceil> - 1))))"

definition scale2 :: "int \<Rightarrow> real" where
  "scale2 q = (if 0 \<le> q then 2 ^ nat q else 1 / 2 ^ nat (- q))"

definition fl :: "real \<Rightarrow> pyfloat" where
  "fl x =
     (if x = 0 then Fin 0
      else let a = \<bar>x\<bar>;
               q = max (ilog2 a) (- 1022) - 52;
               r = of_int (round_half_even (a / scale2 q)) * scale2 q
           in if 2 ^ 1024 \<le> r then (if 0 < x then PosInf else NegInf)
              else Fin (sgn x * r))"

text \<open>
  The exceptions the calculator's arithmetic and conversions can raise.
\<close>

datatype py_exception = ValueError | ZeroDivisionError | OverflowError

text \<open>
  A Python \<open>str\<close> is carried as the list of its UTF-8 bytes, so ASCII text is the list of
  its characters and equality of strings is equality of the lists.

  The platform:
  \<^item> \<open>c_pow2 x\<close> is what the C library's \<open>pow(x, 2.0)\<close> returns for a finite double
    \<open>x > 0\<close>. C libraries do not round \<open>pow\<close> correctly: the result may be either of the
    two doubles around the exact square (\<open>1.9273 ** 2\<close> is \<open>3.71448529\<close> on glibc, while
    the correctly rounded square is \<open>3.7144852900000003\<close>).
  \<^item> \<open>sqlite_text_to_real s\<close> is the float that SQLite makes of the text \<open>s\<close> when it is
    stored in a column of \<open>REAL\<close> affinity, or \<open>None\<close> when SQLite does not read \<open>s\<close> as
    a number and keeps the text.
  \<^item> \<open>float_of_unicode s\<close> is the result of \<open>float(s)\<close> for text with a non-ASCII
    character (\<open>None\<close> for \<open>ValueError\<close>), and \<open>strip_unicode s\<close> that of \<open>s.strip()\<close>.
\<close>

record platform =
  c_pow2 :: "real \<Rightarrow> pyfloat"
  sqlite_text_to_real :: "string \<Rightarrow> pyfloat option"
  float_of_unicode :: "string \<Rightarrow> pyfloat option"
  strip_unicode :: "string \<Rightarrow> string"

text \<open>
  \<open>x ** 2\<close> on floats, as CPython's \<open>float_pow\<close> computes it: NaN stays NaN, an infinity
  squares to \<open>+inf\<close>, zero to zero and \<open>\<plusminus>1\<close> to 1 without a call of the C library;
  every other finite \<open>x\<close> gives \<open>pow(|x|, 2.0)\<close>, and an infinite result raises
  \<open>OverflowError\<close>. A square that underflows is whatever \<open>pow\<close> returns, 0.0 or a
  subnormal.
\<close>

fun flt_square :: "platform \<Rightarrow> pyfloat \<Rightarrow> py_exception + pyfloat" where
  "flt_square P NaN = Inr NaN"
| "flt_square P NegInf = Inr PosInf"
| "flt_square P PosInf = Inr PosInf"
| "flt_square P (Fin x) =
     (if x = 0 then Inr (Fin 0)
      else if \<bar>x\<bar> = 1 then Inr (Fin 1)
      else (case c_pow2 P \<bar>x\<bar> of
              PosInf \<Rightarrow> Inl OverflowError
            | NegInf \<Rightarrow> Inl OverflowError
            | r \<Rightarrow> Inr r))"

text \<open>
  What is known of \<open>pow\<close>. \<open>quantum a\<close> is the distance between neighbouring doubles
  at the positive real \<open>a\<close>, and \<open>on_grid a m\<close> the double \<open>m\<close> quanta from 0 (an infinity
  from \<open>2\<^sup>1\<^sup>0\<^sup>2\<^sup>4\<close> on). A \<open>pow\<close> is faithful when its result is one of the two doubles
  that enclose the exact square; an exact square that is a double is then returned as it
  is. The correctly rounded square \<open>pow_nearest\<close> is one faithful \<open>pow\<close>.
\<close>

definition quantum :: "real \<Rightarrow> real" where
  "quantum a = scale2 (max (ilog2 a) (- 1022) - 52)"

definition on_grid :: "real \<Rightarrow> int \<Rightarrow> pyfloat" where
  "on_grid a m = (let r = of_int m * quantum a in if 2 ^ 1024 \<le> r then PosInf else Fin r)"

definition pow_faithful :: "(real \<Rightarrow> pyfloat) \<Rightarrow> bool" where
  "pow_faithful pw =
     (\<forall>x. 0 < x \<longrightarrow>
        pw x = on_grid (x * x) \<lfloor>x * x / quantum (x * x)\<rfloor>
        \<or> pw x = on_grid (x * x) \<lceil>x * x / quantum (x * x)\<rceil>)"

definition pow_nearest :: "real \<Rightarrow> pyfloat" where
  "pow_nearest x = fl (x * x)"

text \<open>
  \<open>a / b\<close> on floats: CPython raises \<open>ZeroDivisionError\<close> whenever the divisor is zero
  and otherwise returns the IEEE quotient (an overflowing quotient is an infinity, not an
  exception).
\<close>

fun flt_div :: "pyfloat \<Rightarrow> pyfloat \<Rightarrow> py_exception + pyfloat" where
  "flt_div a (Fin y) =
     (if y = 0 then Inl ZeroDivisionError
      else Inr (case a of
                  NaN \<Rightarrow> NaN
                | Fin x \<Rightarrow> fl (x / y)
                | PosInf \<Rightarrow> if 0 < y then PosInf else NegInf
                | NegInf \<Rightarrow> if 0 < y then NegInf else PosInf))"
| "flt_div NaN _ = Inr NaN"
| "flt_div _ NaN = Inr NaN"
| "flt_div (Fin x) _ = Inr (Fin 0)"
| "flt_div _ _ = Inr NaN"

text \<open>
  \<open>round(x, 2)\<close>: NaN and the infinities round to themselves; a finite value is rounded
  to the nearest multiple of 0.01, ties to the even multiple, and the decimal result is
  read back as a float.
\<close>

fun py_round2 :: "pyfloat \<Rightarrow> pyfloat" where
  "py_round2 (Fin x) = fl (of_int (round_half_even (x * 100)) / 100)"
| "py_round2 v = v"

fun flt_neg :: "pyfloat \<Rightarrow> pyfloat" where
  "flt_neg (Fin x) = Fin (- x)"
| "flt_neg PosInf = NegInf"
| "flt_neg NegInf = PosInf"
| "flt_neg NaN = NaN"

subsection \<open>Python values and \<open>float()\<close>\<close>

text \<open>
  The calculator receives its weight and height either as the text of an entry widget
  (the GUI) or as floats (the command line). \<open>float(v)\<close> returns a float unchanged and
  parses a string. For ASCII text: surrounding whitespace is dropped (space, tab, newline,
  vertical tab, form feed and carriage return, the C \<open>isspace\<close> set), then an optional sign
  and either \<open>inf\<close>, \<open>infinity\<close> or \<open>nan\<close> (in any letter case) or a decimal number with
  optional fraction and exponent, whose digit groups may hold single underscores between
  digits. The value of a decimal number is rounded to the nearest float. Any other ASCII
  string raises \<open>ValueError\<close>. For text with a non-ASCII character (other digits, other
  whitespace) the result is the platform's.

  \<open>str.strip()\<close> drops more than \<open>float\<close> does: on ASCII text also the four separator
  characters \<open>0x1C\<close> to \<open>0x1F\<close>.
\<close>

datatype pyval = PyStr string | PyFloat pyfloat

definition is_ascii :: "string \<Rightarrow> bool" where
  "is_ascii s = list_all (\<lambda>c. (of_char c :: nat) < 128) s"

definition is_space :: "char \<Rightarrow> bool" where
  \<comment> \<open>\<open>str.isspace\<close> on an ASCII character\<close>
  "is_space c = ((of_char c :: nat) \<in> {9, 10, 11, 12, 13, 28, 29, 30, 31, 32})"

definition is_c_space :: "char \<Rightarrow> bool" where
  \<comment> \<open>C's \<open>isspace\<close>, which \<open>float\<close> and SQLite use\<close>
  "is_c_space c = ((of_char c :: nat) \<in> {9, 10, 11, 12, 13, 32})"

definition strip :: "platform \<Rightarrow> string \<Rightarrow> string" where
  "strip P s =
     (if is_ascii s then rev (dropWhile is_space (rev (dropWhile is_space s)))
      else strip_unicode P s)"

definition strip_c :: "string \<Rightarrow> string" where
  "strip_c s = rev (dropWhile is_c_space (rev (dropWhile is_c_space s)))"

definition is_digit :: "char \<Rightarrow> bool" where
  "is_digit c = (48 \<le> (of_char c :: nat) \<and> (of_char c :: nat) \<le> 57)"

definition digit_val :: "char \<Rightarrow> nat" where
  "digit_val c = of_char c - 48"

definition to_lower :: "char \<Rightarrow> char" where
  "to_lower c =
     (if 65 \<le> (of_char c :: nat) \<and> (of_char c :: nat) \<le> 90
      then char_of (of_char c + 32 :: nat) else c)"

text \<open>
  \<open>digits_rest m n s\<close> continues a digit group after one of its digits: \<open>m\<close> is the
  number read so far, \<open>n\<close> the count of digits; it returns them with the unread rest.
\<close>

fun digits_rest :: "nat \<Rightarrow> nat \<Rightarrow> string \<Rightarrow> nat \<times> nat \<times> string" where
  "digits_rest m n [] = (m, n, [])"
| "digits_rest m n [c] =
     (if is_digit c then (10 * m + digit_val c, Suc n, []) else (m, n, [c]))"
| "digits_rest m n (c # d # cs) =
     (if is_digit c then digits_rest (10 * m + digit_val c) (Suc n) (d # cs)
      else if c = CHR ''_'' \<and> is_digit d then digits_rest (10 * m + digit_val d) (Suc n) cs
      else (m, n, c # d # cs))"

definition digitpart :: "nat \<Rightarrow> string \<Rightarrow> (nat \<times> nat \<times> string) option" where
  "digitpart m s =
     (case s of
        [] \<Rightarrow> None
      | c # cs \<Rightarrow> if is_digit c then Some (digits_rest (10 * m + digit_val c) 1 cs) else None)"

text \<open>
  \<open>parse_number\<close> reads \<open>digits [. [digits]]\<close> or \<open>. digits\<close> and returns the digits as
  one natural number, the count of fraction digits, and the unread rest.
\<close>

definition parse_number :: "string \<Rightarrow> (nat \<times> nat \<times> string) option" where
  "parse_number s =
     (case s of
        [] \<Rightarrow> None
      | c # cs \<Rightarrow>
          if c = CHR ''.'' then digitpart 0 cs
          else (case digitpart 0 s of
                  None \<Rightarrow> None
                | Some (m, _, []) \<Rightarrow> Some (m, 0, [])
                | Some (m, _, d # ds) \<Rightarrow>
                    if d = CHR ''.''
                    then (case digitpart m ds of None \<Rightarrow> Some (m, 0, ds) | Some r \<Rightarrow> Some r)
                    else Some (m, 0, d # ds)))"

definition parse_exponent :: "string \<Rightarrow> (int \<times> string) option" where
  "parse_exponent s =
     (case s of
        [] \<Rightarrow> Some (0, [])
      | c # cs \<Rightarrow>
          if c = CHR ''e'' \<or> c = CHR ''E''
          then (case cs of
                  [] \<Rightarrow> None
                | d # ds \<Rightarrow>
                    if d = CHR ''-''
                    then map_option (\<lambda>(m, _, r). (- int m, r)) (digitpart 0 ds)
                    else if d = CHR ''+''
                    then map_option (\<lambda>(m, _, r). (int m, r)) (digitpart 0 ds)
                    else map_option (\<lambda>(m, _, r). (int m, r)) (digitpart 0 cs))
          else Some (0, s))"

definition pow10 :: "int \<Rightarrow> real" where
  "pow10 e = (if 0 \<le> e then 10 ^ nat e else 1 / 10 ^ nat (- e))"

definition parse_decimal :: "string \<Rightarrow> pyfloat option" where
  "parse_decimal s =
     (case parse_number s of
        None \<Rightarrow> None
      | Some (m, n, rest) \<Rightarrow>
          (case parse_exponent rest of
             Some (e, []) \<Rightarrow> Some (fl (of_nat m * pow10 (e - int n)))
           | _ \<Rightarrow> None))"

definition parse_float_abs :: "string \<Rightarrow> pyfloat option" where
  "parse_float_abs s =
     (if map to_lower s = ''inf'' \<or> map to_lower s = ''infinity'' then Some PosInf
      else if map to_lower s = ''nan'' then Some NaN
      else parse_decimal s)"

definition with_sign :: "(string \<Rightarrow> pyfloat option) \<Rightarrow> string \<Rightarrow> pyfloat option" where
  "with_sign f s =
     (case s of
        [] \<Rightarrow> None
      | c # cs \<Rightarrow>
          if c = CHR ''-'' then map_option flt_neg (f cs)
          else if c = CHR ''+'' then f cs
          else f (c # cs))"

definition float_of_str :: "platform \<Rightarrow> string \<Rightarrow> pyfloat option" where
  "float_of_str P s =
     (if is_ascii s then with_sign parse_float_abs (strip_c s) else float_of_unicode P s)"

fun py_float :: "platform \<Rightarrow> pyval \<Rightarrow> py_exception + pyfloat" where
  "py_float P (PyFloat x) = Inr x"
| "py_float P (PyStr s) =
     (case float_of_str P s of None \<Rightarrow> Inl ValueError | Some x \<Rightarrow> Inr x)"

subsection \<open>Classification\<close>

text \<open>
  \<^verbatim>\<open>
  def classify_bmi(self, bmi):
      if bmi < 18.5: return "Underweight"
      elif 18.5 <= bmi < 25: return "Normal weight"
      elif 25 <= bmi < 30: return "Overweight"
      else: return "Obese"
  \<close>
  The literals 18.5, 25 and 30 are binary64 values, so the comparisons are exact.
\<close>

definition classify_bmi :: "pyfloat \<Rightarrow> string" where
  "classify_bmi bmi =
     (if flt_lt bmi (Fin 18.5) then ''Underweight''
      else if flt_le (Fin 18.5) bmi \<and> flt_lt bmi (Fin 25) then ''Normal weight''
      else if flt_le (Fin 25) bmi \<and> flt_lt bmi (Fin 30) then ''Overweight''
      else ''Obese'')"

subsection \<open>Calculation and validation\<close>

text \<open>
  \<^verbatim>\<open>
  def calculate_bmi(self, weight, height):
      try:
          bmi = float(weight) / (float(height) ** 2)
          return round(bmi, 2)
      except (ValueError, ZeroDivisionError):
          return None
  \<close>
  The result is \<open>Inr (Some bmi)\<close> for a returned float, \<open>Inr None\<close> for the returned
  \<open>None\<close>, and \<open>Inl e\<close> for an exception that the handler does not catch and that reaches
  the caller.
\<close>

definition handled :: "py_exception \<Rightarrow> bool" where
  \<comment> \<open>\<open>except (ValueError, ZeroDivisionError)\<close>\<close>
  "handled e = (e = ValueError \<or> e = ZeroDivisionError)"

definition bmi_expression :: "platform \<Rightarrow> pyval \<Rightarrow> pyval \<Rightarrow> py_exception + pyfloat" where
  \<comment> \<open>the body of the \<open>try\<close>, in Python's evaluation order\<close>
  "bmi_expression P weight height =
     (case py_float P weight of
        Inl e \<Rightarrow> Inl e
      | Inr w \<Rightarrow>
          (case py_float P height of
             Inl e \<Rightarrow> Inl e
           | Inr h \<Rightarrow>
               (case flt_square P h of
                  Inl e \<Rightarrow> Inl e
                | Inr h2 \<Rightarrow>
                    (case flt_div w h2 of
                       Inl e \<Rightarrow> Inl e
                     | Inr bmi \<Rightarrow> Inr (py_round2 bmi)))))"

definition calculate_bmi ::
  "platform \<Rightarrow> pyval \<Rightarrow> pyval \<Rightarrow> py_exception + pyfloat option" where
  "calculate_bmi P weight height =
     (case bmi_expression P weight height of
        Inr bmi \<Rightarrow> Inr (Some bmi)
      | Inl e \<Rightarrow> if handled e then Inr None else Inl e)"

text \<open>
  \<^verbatim>\<open>
  def validate_input(self, weight, height):
      try:
          weight_float = float(weight)
          height_float = float(height)
          if weight_float <= 0 or height_float <= 0:
              return False, "Weight and height must be positive numbers"
          if weight_float > 300:
              return False, "Weight seems too high. Please check your input."
          if height_float > 2.5:
              return False, "Height seems too high. Please check your input."
          return True, "Valid input"
      except ValueError:
          return False, "Please enter valid numbers for weight and height"
  \<close>
  \<open>float()\<close> raises nothing but \<open>ValueError\<close> on a string or a float, so the function
  always returns its pair.
\<close>

definition validate_input :: "platform \<Rightarrow> pyval \<Rightarrow> pyval \<Rightarrow> bool \<times> string" where
  "validate_input P weight height =
     (case py_float P weight of
        Inl _ \<Rightarrow> (False, ''Please enter valid numbers for weight and height'')
      | Inr weight_float \<Rightarrow>
          (case py_float P height of
             Inl _ \<Rightarrow> (False, ''Please enter valid numbers for weight and height'')
           | Inr height_float \<Rightarrow>
               if flt_le weight_float (Fin 0) \<or> flt_le height_float (Fin 0)
               then (False, ''Weight and height must be positive numbers'')
               else if flt_lt (Fin 300) weight_float
               then (False, ''Weight seems too high. Please check your input.'')
               else if flt_lt (Fin 2.5) height_float
               then (False, ''Height seems too high. Please check your input.'')
               else (True, ''Valid input'')))"

subsection \<open>The record store\<close>

text \<open>
  The SQLite file holds one table, \<open>bmi_records (id, username, weight, height, bmi,
  category, timestamp)\<close>. The database is \<open>None\<close> while the table does not exist and
  \<open>Some rows\<close> afterwards, the rows in insertion order. Every \<open>sqlite3\<close> call can fail
  for reasons outside the program (an unreadable file, a locked database): the flag
  \<open>fault\<close> says whether the calls of one method raise \<open>sqlite3.Error\<close>. A statement on
  a missing table raises it as well.

  The columns \<open>weight\<close>, \<open>height\<close> and \<open>bmi\<close> are declared \<open>REAL NOT NULL\<close>.
  \<open>real_column P v\<close> is what such a column holds after \<open>v\<close> is bound to it: a float stays
  as it is, except that SQLite stores NaN as \<open>NULL\<close> (\<open>None\<close> here); text that SQLite
  reads as a number becomes that float, and other text is kept as text. An \<open>INSERT\<close>
  with a \<open>NULL\<close> in one of the three columns violates \<open>NOT NULL\<close> and raises
  \<open>sqlite3.IntegrityError\<close>. The GUI binds the entry texts as weight and height.
\<close>

record bmi_record =
  rec_id :: nat
  username :: string
  weight :: pyval
  height :: pyval
  bmi :: pyfloat
  category :: string
  timestamp :: string

type_synonym database = "bmi_record list option"

type_synonym history_row = "string \<times> pyval \<times> pyval \<times> pyfloat \<times> string"

datatype sqlite_error = SqliteError

definition sql_create_table :: "bool \<Rightarrow> database \<Rightarrow> sqlite_error + database" where
  \<comment> \<open>\<open>CREATE TABLE IF NOT EXISTS bmi_records (...)\<close>\<close>
  "sql_create_table fault db =
     (if fault then Inl SqliteError
      else Inr (Some (case db of None \<Rightarrow> [] | Some rows \<Rightarrow> rows)))"

fun real_value :: "pyfloat \<Rightarrow> pyval option" where
  "real_value NaN = None"
| "real_value x = Some (PyFloat x)"

fun real_column :: "platform \<Rightarrow> pyval \<Rightarrow> pyval option" where
  "real_column P (PyFloat x) = real_value x"
| "real_column P (PyStr s) =
     (case sqlite_text_to_real P s of None \<Rightarrow> Some (PyStr s) | Some x \<Rightarrow> real_value x)"

definition sql_insert ::
  "platform \<Rightarrow> bool \<Rightarrow> database \<Rightarrow> string \<Rightarrow> pyval \<Rightarrow> pyval \<Rightarrow> pyfloat \<Rightarrow> string
     \<Rightarrow> string \<Rightarrow> sqlite_error + database" where
  \<comment> \<open>\<open>INSERT INTO bmi_records (username, weight, height, bmi, category, timestamp)
      VALUES (?, ?, ?, ?, ?, ?)\<close> and the commit; \<open>id\<close> is \<open>AUTOINCREMENT\<close>\<close>
  "sql_insert P fault db u w h b c ts =
     (if fault then Inl SqliteError
      else (case db of
              None \<Rightarrow> Inl SqliteError
            | Some rows \<Rightarrow>
                (case (real_column P w, real_column P h, real_value b) of
                   (Some w', Some h', Some (PyFloat b')) \<Rightarrow>
                     Inr (Some (rows @
                       [\<lparr>rec_id = Suc (length rows), username = u, weight = w',
                         height = h', bmi = b', category = c, timestamp = ts\<rparr>]))
                 | _ \<Rightarrow> Inl SqliteError)))"

text \<open>
  \<open>ORDER BY timestamp DESC\<close> compares the timestamp strings byte by byte. SQL leaves the
  order of rows with equal timestamps open; the model keeps them in insertion order.
\<close>

fun insert_desc :: "history_row \<Rightarrow> history_row list \<Rightarrow> history_row list" where
  "insert_desc r [] = [r]"
| "insert_desc r (x # xs) = (if fst r < fst x then x # insert_desc r xs else r # x # xs)"

definition order_by_timestamp_desc :: "history_row list \<Rightarrow> history_row list" where
  "order_by_timestamp_desc xs = foldr insert_desc xs []"

definition sql_select_history ::
  "bool \<Rightarrow> database \<Rightarrow> string \<Rightarrow> sqlite_error + history_row list" where
  \<comment> \<open>\<open>SELECT timestamp, weight, height, bmi, category FROM bmi_records
      WHERE username = ? ORDER BY timestamp DESC\<close>\<close>
  "sql_select_history fault db u =
     (if fault then Inl SqliteError
      else (case db of
              None \<Rightarrow> Inl SqliteError
            | Some rows \<Rightarrow>
                Inr (order_by_timestamp_desc
                       (map (\<lambda>r. (timestamp r, weight r, height r, bmi r, category r))
                          (filter (\<lambda>r. username r = u) rows)))))"

definition sql_select_users :: "bool \<Rightarrow> database \<Rightarrow> sqlite_error + string list" where
  \<comment> \<open>\<open>SELECT DISTINCT username FROM bmi_records\<close>, in order of first occurrence\<close>
  "sql_select_users fault db =
     (if fault then Inl SqliteError
      else (case db of
              None \<Rightarrow> Inl SqliteError
            | Some rows \<Rightarrow> Inr (rev (remdups (rev (map username rows))))))"

text \<open>
  The four methods of \<open>BMICalculator\<close> that touch the database. Each wraps its statements
  in \<open>try ... except sqlite3.Error\<close>. \<open>now\<close> is the text of
  \<open>datetime.now().strftime("%Y-%m-%d %H:%M:%S")\<close> at the call.
\<close>

definition init_database :: "bool \<Rightarrow> database \<Rightarrow> database" where
  "init_database fault db =
     (case sql_create_table fault db of Inl _ \<Rightarrow> db | Inr db' \<Rightarrow> db')"

definition save_to_database ::
  "platform \<Rightarrow> bool \<Rightarrow> string \<Rightarrow> database \<Rightarrow> string \<Rightarrow> pyval \<Rightarrow> pyval \<Rightarrow> pyfloat
     \<Rightarrow> string \<Rightarrow> bool \<times> database" where
  "save_to_database P fault now db u w h b c =
     (case sql_insert P fault db u w h b c now of
        Inl _ \<Rightarrow> (False, db)
      | Inr db' \<Rightarrow> (True, db'))"

definition get_user_history :: "bool \<Rightarrow> database \<Rightarrow> string \<Rightarrow> history_row list" where
  "get_user_history fault db u =
     (case sql_select_history fault db u of Inl _ \<Rightarrow> [] | Inr records \<Rightarrow> records)"

definition get_all_users :: "bool \<Rightarrow> database \<Rightarrow> string list" where
  "get_all_users fault db =
     (case sql_select_users fault db of Inl _ \<Rightarrow> [] | Inr users \<Rightarrow> users)"

text \<open>
  The operations the class offers on the store, and the database each leaves behind.
  The two queries only read.
\<close>

datatype store_op =
  OpInit
| OpSave string pyval pyval pyfloat string
| OpHistory string
| OpAllUsers

fun database_after :: "platform \<Rightarrow> bool \<times> string \<times> store_op \<Rightarrow> database \<Rightarrow> database" where
  "database_after P (fault, now, OpInit) db = init_database fault db"
| "database_after P (fault, now, OpSave u w h b c) db =
     snd (save_to_database P fault now db u w h b c)"
| "database_after P (fault, now, OpHistory u) db = db"
| "database_after P (fault, now, OpAllUsers) db = db"

definition run_ops ::
  "platform \<Rightarrow> (bool \<times> string \<times> store_op) list \<Rightarrow> database \<Rightarrow> database" where
  "run_ops P steps db = fold (database_after P) steps db"

subsection \<open>The GUI handler\<close>

text \<open>
  \<^verbatim>\<open>
  def calculate_bmi_gui(self):
      username = self.username_entry.get().strip()
      weight = self.weight_entry.get().strip()
      height = self.height_entry.get().strip()
      if not username: showerror("Input Error", "Please enter a username"); return
      is_valid, message = self.calculator.validate_input(weight, height)
      if not is_valid: showerror("Input Error", message); return
      bmi = self.calculator.calculate_bmi(weight, height)
      if bmi is None: showerror("Calculation Error", ...); return
      category = self.calculator.classify_bmi(bmi)
      success = self.calculator.save_to_database(username, weight, height, bmi, category)
      ... display username, weight, height, bmi, category, success ...
  \<close>
  The handler is the only caller of \<open>save_to_database\<close>: a record is created exactly when
  it reaches that call and the insert succeeds. The model returns what the handler shows
  and the database it leaves.
\<close>

datatype gui_outcome =
  InputError string
| CalculationError
| Uncaught py_exception
| Displayed string string string pyfloat string bool

definition calculate_bmi_gui ::
  "platform \<Rightarrow> bool \<Rightarrow> string \<Rightarrow> database \<Rightarrow> string \<Rightarrow> string \<Rightarrow> string
     \<Rightarrow> gui_outcome \<times> database" where
  "calculate_bmi_gui P fault now db username_entry weight_entry height_entry =
     (let u = strip P username_entry; w = strip P weight_entry; h = strip P height_entry
      in if u = [] then (InputError ''Please enter a username'', db)
         else (case validate_input P (PyStr w) (PyStr h) of
                 (False, message) \<Rightarrow> (InputError message, db)
               | (True, _) \<Rightarrow>
                   (case calculate_bmi P (PyStr w) (PyStr h) of
                      Inl e \<Rightarrow> (Uncaught e, db)
                    | Inr None \<Rightarrow> (CalculationError, db)
                    | Inr (Some b) \<Rightarrow>
                        (let c = classify_bmi b;
                             (success, db') =
                               save_to_database P fault now db u (PyStr w) (PyStr h) b c
                         in (Displayed u w h b c success, db')))))"

subsection \<open>A platform for the examples\<close>

text \<open>
  The worked examples below need one platform. Its \<open>pow\<close> is the correctly rounded square,
  and its SQLite reads as a number the decimal literals that SQLite accepts (an optional
  sign, digits with an optional point, an optional exponent, whitespace around them, no
  underscores), correctly rounded. The examples use ASCII text only, so its two Unicode
  components are never consulted: it rejects and keeps such text.
\<close>

definition atof_nearest :: "string \<Rightarrow> pyfloat option" where
  "atof_nearest s =
     (if is_ascii s \<and> CHR ''_'' \<notin> set s then with_sign parse_decimal (strip_c s) else None)"

definition example_platform :: platform where
  "example_platform =
     \<lparr>c_pow2 = pow_nearest, sqlite_text_to_real = atof_nearest,
      float_of_unicode = (\<lambda>s. None), strip_unicode = (\<lambda>s. s)\<rparr>"

section \<open>Supporting lemmas\<close>

subsection \<open>Rounding to binary64\<close>

lemma scale2_powi: "scale2 q = 2 powi q"
  by (simp add: scale2_def power_int_def inverse_eq_divide power_one_over)

lemma scale2_pos: "0 < scale2 q"
  by (simp add: scale2_powi)

lemma scale2_mono_iff: "scale2 p \<le> scale2 q \<longleftrightarrow> p \<le> q"
proof
  assume le: "scale2 p \<le> scale2 q"
  show "p \<le> q"
  proof (rule ccontr)
    assume "\<not> p \<le> q"
    then have "q < p" by simp
    then have "(2::real) powi q < 2 powi p"
      by (rule power_int_strict_increasing) simp
    with le show False by (simp add: scale2_powi)
  qed
next
  assume "p \<le> q"
  then show "scale2 p \<le> scale2 q"
    unfolding scale2_powi by (intro power_int_increasing) simp_all
qed

lemma scale2_neg: "scale2 (- int k) = 1 / 2 ^ k"
  by (simp add: scale2_powi power_int_minus inverse_eq_divide)

lemma ilog2_lower:
  assumes "0 < a"
  shows "scale2 (ilog2 a) \<le> a"
proof (cases "1 \<le> a")
  case True
  define n where "n = nat \<lfloor>a\<rfloor>"
  have n: "0 < n" using True by (simp add: n_def)
  have b: "2 ^ (floorlog 2 n - 1) \<le> n"
    using floorlog_bounds [where b = 2 and x = n] n by simp
  have na: "real n \<le> a" using True by (simp add: n_def)
  have fp: "0 < floorlog 2 n" using n by (simp add: floorlog_def)
  have "ilog2 a = int (floorlog 2 n - 1)"
    using True fp by (simp add: ilog2_def n_def)
  then have "scale2 (ilog2 a) = 2 ^ (floorlog 2 n - 1)"
    by (simp add: scale2_def)
  also have "\<dots> \<le> real n" using b
    by (metis of_nat_le_iff of_nat_numeral of_nat_power)
  finally show ?thesis using na by simp
next
  case False
  define k where "k = \<lceil>1 / a\<rceil>"
  define n where "n = nat (k - 1)"
  have inv: "1 < 1 / a" using False assms by simp
  then have "1 < k" unfolding k_def by (simp only: less_ceiling_iff of_int_1)
  then have n: "0 < n" and nk: "int n + 1 = k" by (simp_all add: n_def)
  have b: "n < 2 ^ floorlog 2 n"
    using floorlog_bounds [where b = 2 and x = n] n by simp
  then have "int n < 2 ^ floorlog 2 n"
    by (metis of_nat_less_iff of_nat_numeral of_nat_power)
  with nk have "k \<le> 2 ^ floorlog 2 n" by linarith
  then have "1 / a \<le> 2 ^ floorlog 2 n"
    unfolding k_def by (metis ceiling_le_iff of_int_numeral of_int_power)
  then have "1 / 2 ^ floorlog 2 n \<le> a"
    using assms by (simp add: field_simps)
  moreover have "ilog2 a = - int (floorlog 2 n)"
    using False by (simp add: ilog2_def n_def k_def)
  ultimately show ?thesis
    by (simp add: scale2_neg)
qed

lemma round_half_even_upper: "real_of_int (round_half_even x) \<le> x + 1 / 2"
  unfolding round_half_even_def Let_def by (simp add: ) linarith

lemma round_half_even_zero: "0 \<le> x \<Longrightarrow> x \<le> 1 / 2 \<Longrightarrow> round_half_even x = 0"
proof -
  assume a: "0 \<le> x" "x \<le> 1 / 2"
  then have "\<lfloor>x\<rfloor> = 0" by linarith
  with a show ?thesis by (simp add: round_half_even_def)
qed

lemma round_half_even_ge_1: "1 \<le> x \<Longrightarrow> 1 \<le> round_half_even x"
proof -
  assume "1 \<le> x"
  then have "1 \<le> \<lfloor>x\<rfloor>" by linarith
  then show ?thesis by (simp add: round_half_even_def Let_def)
qed

lemma fl_underflow:
  assumes "\<bar>x\<bar> \<le> 1 / 2 ^ 1075"
  shows "fl x = Fin 0"
proof (cases "x = 0")
  case True
  then show ?thesis by (simp add: fl_def)
next
  case False
  define a where "a = \<bar>x\<bar>"
  have a: "0 < a" "a \<le> 1 / 2 ^ 1075" using False assms by (simp_all add: a_def)
  have "scale2 (ilog2 a) \<le> scale2 (- int 1075)"
    using ilog2_lower [OF a(1)] a(2) by (simp only: scale2_neg)
  then have "ilog2 a \<le> - 1075" by (simp only: scale2_mono_iff)
  then have q: "max (ilog2 a) (- 1022) - 52 = - int 1074" by simp
  have "a / scale2 (- int 1074) \<le> 1 / 2"
    using a(2) by (simp only: scale2_neg) (simp add: field_simps)
  moreover have "0 \<le> a / scale2 (- int 1074)"
    using a(1) scale2_pos [of "- int 1074"] by simp
  ultimately have "round_half_even (a / scale2 (- int 1074)) = 0"
    by (rule round_half_even_zero [rotated])
  then show ?thesis
    using False unfolding fl_def Let_def a_def [symmetric] q by simp
qed

lemma fl_nonzero:
  assumes "1 / 2 ^ 1074 \<le> \<bar>x\<bar>"
  shows "fl x \<noteq> Fin 0"
proof -
  define a where "a = \<bar>x\<bar>"
  define q where "q = max (ilog2 a) (- 1022) - 52"
  have a: "0 < a" "1 / 2 ^ 1074 \<le> a"
    using assms by (simp_all add: a_def)
  have x: "x \<noteq> 0" using a by (auto simp: a_def)
  have "scale2 q \<le> a"
  proof (cases "- 1022 \<le> ilog2 a")
    case True
    then have "q \<le> ilog2 a" by (simp add: q_def)
    then have "scale2 q \<le> scale2 (ilog2 a)" by (simp only: scale2_mono_iff)
    with ilog2_lower [OF a(1)] show ?thesis by simp
  next
    case False
    then have "q = - int 1074" by (simp add: q_def)
    then show ?thesis using a(2) by (simp only: scale2_neg)
  qed
  then have "1 \<le> a / scale2 q" using scale2_pos [of q] by (simp add: field_simps)
  then have "1 \<le> round_half_even (a / scale2 q)" by (rule round_half_even_ge_1)
  then have "0 < real_of_int (round_half_even (a / scale2 q)) * scale2 q"
    using scale2_pos [of q] by simp
  then show ?thesis
    using x unfolding fl_def Let_def a_def [symmetric] q_def [symmetric]
    by (auto simp: sgn_real_def)
qed


lemma scale2_diff: "scale2 (m - int k) = scale2 m / 2 ^ k"
  by (simp add: scale2_powi power_int_diff)

lemma fl_finite:
  assumes "\<bar>x\<bar> \<le> 2 ^ 1023"
  shows "\<exists>r. fl x = Fin r"
proof (cases "x = 0")
  case True
  then show ?thesis by (simp add: fl_def)
next
  case False
  define a where "a = \<bar>x\<bar>"
  define m where "m = max (ilog2 a) (- 1022)"
  define B :: real where "B = 2 ^ 1023"
  have a: "0 < a" "a \<le> B" using False assms by (simp_all add: a_def B_def)
  have B: "0 < B" by (simp add: B_def)
  have "scale2 m \<le> B"
  proof (cases "- 1022 \<le> ilog2 a")
    case True
    then have "m = ilog2 a" by (simp add: m_def)
    with ilog2_lower [OF a(1)] a(2) show ?thesis by simp
  next
    case False
    then have "m = - int 1022" by (simp add: m_def)
    moreover have "(1::real) / 2 ^ 1022 \<le> 2 ^ 1023"
      by (rule order_trans [of _ 1]) simp_all
    ultimately show ?thesis by (simp only: scale2_neg B_def)
  qed
  then have s: "scale2 (m - int 52) \<le> B / 2 ^ 52"
    by (simp only: scale2_diff) (simp add: divide_right_mono)
  define s where "s = scale2 (m - int 52)"
  have sp: "0 < s" by (simp add: s_def scale2_pos)
  have "real_of_int (round_half_even (a / s)) * s \<le> (a / s + 1 / 2) * s"
    using round_half_even_upper [of "a / s"] sp by (simp only: mult_le_cancel_right_pos)
  also have "\<dots> = a + s / 2" using sp by (simp add: field_simps)
  also have "\<dots> \<le> B + B / 2 ^ 52 / 2" using a(2) s by (simp add: s_def)
  also have "\<dots> < B + B" using B by (simp add: field_simps)
  finally have "real_of_int (round_half_even (a / s)) * s < 2 ^ 1024"
    by (simp add: B_def)
  then have "\<not> 2 ^ 1024 \<le> real_of_int (round_half_even (a / s)) * s" by simp
  then show ?thesis
    using False unfolding fl_def Let_def a_def [symmetric]
    unfolding m_def [symmetric] s_def [symmetric, simplified]
    by simp
qed


lemma scale2_less_iff: "scale2 p < scale2 q \<longleftrightarrow> p < q"
  using scale2_mono_iff [of q p] by (simp add: not_le [symmetric])

lemma ilog2_upper:
  assumes "0 < a"
  shows "a < scale2 (ilog2 a + 1)"
proof (cases "1 \<le> a")
  case True
  define n where "n = nat \<lfloor>a\<rfloor>"
  have n: "0 < n" using True by (simp add: n_def)
  have "n < 2 ^ floorlog 2 n"
    using floorlog_bounds [where b = 2 and x = n] n by simp
  then have "int n < 2 ^ floorlog 2 n"
    by (metis of_nat_less_iff of_nat_numeral of_nat_power)
  moreover have "int n = \<lfloor>a\<rfloor>" using True by (simp add: n_def)
  ultimately have "\<lfloor>a\<rfloor> < 2 ^ floorlog 2 n" by simp
  then have "a < 2 ^ floorlog 2 n"
    by (metis floor_less_iff of_int_numeral of_int_power)
  moreover have "ilog2 a + 1 = int (floorlog 2 n)"
    using True by (simp add: ilog2_def n_def)
  ultimately show ?thesis by (simp add: scale2_def)
next
  case False
  define k where "k = \<lceil>1 / a\<rceil>"
  define n where "n = nat (k - 1)"
  define j where "j = floorlog 2 n"
  have inv: "1 < 1 / a" using False assms by simp
  then have "1 < k" unfolding k_def by (simp only: less_ceiling_iff of_int_1)
  then have n: "0 < n" and nk: "int n = k - 1" by (simp_all add: n_def)
  have jp: "0 < j" using n by (simp add: j_def floorlog_def)
  have "2 ^ (j - 1) \<le> n"
    using floorlog_bounds [where b = 2 and x = n] n by (simp add: j_def)
  then have "(2::int) ^ (j - 1) \<le> int n"
    by (metis of_nat_le_iff of_nat_numeral of_nat_power)
  with nk have "(2::int) ^ (j - 1) < k" by linarith
  then have "real_of_int (2 ^ (j - 1)) < 1 / a"
    unfolding k_def by (simp only: less_ceiling_iff)
  then have "2 ^ (j - 1) < 1 / a" by simp
  then have "a < 1 / 2 ^ (j - 1)"
    using assms by (simp add: field_simps)
  moreover have "ilog2 a + 1 = - int (j - 1)"
    using False jp by (simp add: ilog2_def n_def k_def j_def)
  ultimately show ?thesis by (simp only: scale2_neg)
qed

lemma ilog2_unique:
  assumes "0 < a" "scale2 e \<le> a" "a < scale2 (e + 1)"
  shows "ilog2 a = e"
proof -
  have "scale2 e < scale2 (ilog2 a + 1)"
    using assms(2) ilog2_upper [OF assms(1)] by simp
  then have 1: "e < ilog2 a + 1" by (simp only: scale2_less_iff)
  have "scale2 (ilog2 a) < scale2 (e + 1)"
    using assms(3) ilog2_lower [OF assms(1)] by simp
  then have 2: "ilog2 a < e + 1" by (simp only: scale2_less_iff)
  from 1 2 show ?thesis by simp
qed

lemma round_half_even_eqI:
  assumes "real_of_int m - 1 / 2 < y" "y < real_of_int m + 1 / 2"
  shows "round_half_even y = m"
proof -
  have "\<lfloor>y\<rfloor> = m \<or> \<lfloor>y\<rfloor> = m - 1" using assms by linarith
  then show ?thesis
  proof
    assume f: "\<lfloor>y\<rfloor> = m"
    with assms show ?thesis by (simp add: round_half_even_def)
  next
    assume f: "\<lfloor>y\<rfloor> = m - 1"
    with assms show ?thesis by (simp add: round_half_even_def)
  qed
qed

text \<open>Evaluating \<open>fl\<close> at a positive normal number from its exponent and mantissa.\<close>

lemma fl_eqI:
  assumes "0 < x" "scale2 e \<le> x" "x < scale2 (e + 1)" "- 1022 \<le> e" "e \<le> 1022"
    and "real_of_int m - 1 / 2 < x / scale2 (e - 52)"
    and "x / scale2 (e - 52) < real_of_int m + 1 / 2"
  shows "fl x = Fin (real_of_int m * scale2 (e - 52))"
proof -
  have e: "ilog2 \<bar>x\<bar> = e" using assms(1-3) by (intro ilog2_unique) simp_all
  have q: "max e (- 1022) - 52 = e - 52" using assms(4) by simp
  have r: "round_half_even (\<bar>x\<bar> / scale2 (e - 52)) = m"
    using assms(1,6,7) by (intro round_half_even_eqI) simp_all
  have "\<bar>x\<bar> \<le> 2 ^ 1023"
  proof -
    have "x < scale2 (int 1023)"
      using assms(3,5) scale2_mono_iff [of "e + 1" 1023] by simp
    then show ?thesis using assms(1) by (simp add: scale2_def)
  qed
  then obtain v where v: "fl x = Fin v" using fl_finite by blast
  then show ?thesis
    using assms(1) unfolding fl_def Let_def e q r
    by (auto split: if_splits)
qed

subsection \<open>Faithful \<open>pow\<close>\<close>


lemma quantum_pos: "0 < quantum a"
  by (simp add: quantum_def scale2_pos)

lemma quantum_eq:
  assumes "0 < a" "scale2 e \<le> a" "a < scale2 (e + 1)" "- 1022 \<le> e"
  shows "quantum a = scale2 (e - 52)"
  using ilog2_unique [OF assms(1-3)] assms(4) by (simp add: quantum_def)

lemma quantum_le:
  assumes "1 / 2 ^ 1074 \<le> a"
  shows "quantum a \<le> a"
proof -
  have a: "0 < a"
    by (rule less_le_trans [OF _ assms]) simp
  show ?thesis
  proof (cases "- 1022 \<le> ilog2 a")
    case True
    then have "max (ilog2 a) (- 1022) - 52 \<le> ilog2 a" by simp
    then have "quantum a \<le> scale2 (ilog2 a)"
      unfolding quantum_def by (simp only: scale2_mono_iff)
    with ilog2_lower [OF a] show ?thesis by simp
  next
    case False
    then have "max (ilog2 a) (- 1022) - 52 = - int 1074" by simp
    then show ?thesis using assms unfolding quantum_def by (simp only: scale2_neg)
  qed
qed

lemma quantum_upper:
  assumes "0 < a" "a \<le> 2 ^ 1023"
  shows "quantum a \<le> 2 ^ 1023 / 2 ^ 52"
proof -
  define m where "m = max (ilog2 a) (- 1022)"
  have "scale2 m \<le> 2 ^ 1023"
  proof (cases "- 1022 \<le> ilog2 a")
    case True
    then have "m = ilog2 a" by (simp add: m_def)
    with ilog2_lower [OF assms(1)] assms(2) show ?thesis by simp
  next
    case False
    then have "m = - int 1022" by (simp add: m_def)
    moreover have "(1::real) / 2 ^ 1022 \<le> 2 ^ 1023"
      by (rule order_trans [of _ 1]) simp_all
    ultimately show ?thesis by (simp only: scale2_neg)
  qed
  then have "scale2 (m - int 52) \<le> 2 ^ 1023 / 2 ^ 52"
    by (simp only: scale2_diff) (simp add: divide_right_mono)
  then show ?thesis by (simp add: quantum_def m_def)
qed

lemma on_grid_finite:
  assumes "0 < a" "a \<le> 2 ^ 1023" "real_of_int m \<le> a / quantum a + 1"
  shows "\<exists>r. on_grid a m = Fin r"
proof -
  define B :: real where "B = 2 ^ 1023"
  have B: "0 < B" by (simp add: B_def)
  have q: "0 < quantum a" by (rule quantum_pos)
  have "real_of_int m * quantum a \<le> (a / quantum a + 1) * quantum a"
    using assms(3) q by (simp only: mult_le_cancel_right_pos)
  also have "\<dots> = a + quantum a" using q by (simp add: field_simps)
  also have "\<dots> \<le> B + B / 2 ^ 52"
    using assms(2) quantum_upper [OF assms(1,2)] by (simp add: B_def)
  also have "\<dots> < B + B" using B by (simp add: field_simps)
  finally have "real_of_int m * quantum a < 2 ^ 1024" by (simp add: B_def)
  then have "\<not> 2 ^ 1024 \<le> real_of_int m * quantum a" by simp
  then show ?thesis unfolding on_grid_def Let_def by simp
qed

lemma on_grid_nonzero:
  assumes "1 \<le> m"
  shows "on_grid a m \<noteq> Fin 0"
proof -
  have "0 < real_of_int m * quantum a"
    using assms quantum_pos [of a] by simp
  then show ?thesis unfolding on_grid_def Let_def by auto
qed

lemma round_half_even_floor_ceiling:
  "round_half_even y = \<lfloor>y\<rfloor> \<or> round_half_even y = \<lceil>y\<rceil>"
proof (cases "y = of_int \<lfloor>y\<rfloor>")
  case True
  then have "y - of_int \<lfloor>y\<rfloor> = 0" by simp
  then show ?thesis unfolding round_half_even_def Let_def by simp
next
  case False
  then have "\<lceil>y\<rceil> = \<lfloor>y\<rfloor> + 1"
    by (metis ceiling_altdef)
  then show ?thesis unfolding round_half_even_def Let_def by auto
qed

lemma fl_on_grid:
  assumes "0 < x"
  shows "fl x = on_grid x (round_half_even (x / quantum x))"
  using assms by (simp add: fl_def on_grid_def quantum_def Let_def)

lemma pow_faithful_nearest: "pow_faithful pow_nearest"
  unfolding pow_faithful_def pow_nearest_def
proof (intro allI impI)
  fix x :: real
  assume "0 < x"
  then have "0 < x * x" by simp
  then have "fl (x * x) = on_grid (x * x) (round_half_even (x * x / quantum (x * x)))"
    by (rule fl_on_grid)
  with round_half_even_floor_ceiling [of "x * x / quantum (x * x)"]
  show "fl (x * x) = on_grid (x * x) \<lfloor>x * x / quantum (x * x)\<rfloor>
        \<or> fl (x * x) = on_grid (x * x) \<lceil>x * x / quantum (x * x)\<rceil>"
    by auto
qed

lemma pow_faithful_cases:
  assumes "pow_faithful pw" "0 < x"
  obtains m where "pw x = on_grid (x * x) m"
    "real_of_int m \<le> x * x / quantum (x * x) + 1"
    "x * x / quantum (x * x) - 1 \<le> real_of_int m"
proof -
  from assms have
    "pw x = on_grid (x * x) \<lfloor>x * x / quantum (x * x)\<rfloor>
     \<or> pw x = on_grid (x * x) \<lceil>x * x / quantum (x * x)\<rceil>"
    unfolding pow_faithful_def by blast
  then show thesis
  proof
    assume "pw x = on_grid (x * x) \<lfloor>x * x / quantum (x * x)\<rfloor>"
    then show thesis by (rule that) linarith+
  next
    assume "pw x = on_grid (x * x) \<lceil>x * x / quantum (x * x)\<rceil>"
    then show thesis by (rule that) linarith+
  qed
qed

lemma pow_faithful_finite:
  assumes "pow_faithful pw" "0 < x" "x * x \<le> 2 ^ 1023"
  shows "\<exists>r. pw x = Fin r"
proof -
  from assms(1,2) obtain m where
    m: "pw x = on_grid (x * x) m" "real_of_int m \<le> x * x / quantum (x * x) + 1"
    by (rule pow_faithful_cases)
  have "0 < x * x" using assms(2) by simp
  from on_grid_finite [OF this assms(3) m(2)] m(1) show ?thesis by simp
qed

lemma pow_faithful_nonzero:
  assumes "pow_faithful pw" "0 < x" "1 / 2 ^ 1074 \<le> x * x"
  shows "pw x \<noteq> Fin 0"
proof -
  from assms(1,2) have
    c: "pw x = on_grid (x * x) \<lfloor>x * x / quantum (x * x)\<rfloor>
     \<or> pw x = on_grid (x * x) \<lceil>x * x / quantum (x * x)\<rceil>"
    unfolding pow_faithful_def by blast
  have "1 \<le> x * x / quantum (x * x)"
    using quantum_le [OF assms(3)] quantum_pos [of "x * x"] by (simp add: field_simps)
  then have "1 \<le> \<lfloor>x * x / quantum (x * x)\<rfloor>" "1 \<le> \<lceil>x * x / quantum (x * x)\<rceil>"
    by linarith+
  with c on_grid_nonzero show ?thesis by metis
qed

text \<open>A faithful \<open>pow\<close> at a square between two neighbouring doubles, and at an exact one.\<close>

lemma pow_faithful_between:
  assumes "pow_faithful pw" "0 < x"
    and "scale2 e \<le> x * x" "x * x < scale2 (e + 1)" "- 1022 \<le> e" "e \<le> 1022"
    and "real_of_int m \<le> x * x / scale2 (e - 52)" "x * x / scale2 (e - 52) \<le> real_of_int m + 1"
  shows "pw x = Fin (real_of_int m * scale2 (e - 52))
         \<or> pw x = Fin (real_of_int (m + 1) * scale2 (e - 52))"
proof -
  have a: "0 < x * x" using assms(2) by simp
  have q: "quantum (x * x) = scale2 (e - 52)"
    using a assms(3-5) by (rule quantum_eq)
  have "x * x < scale2 (int 1023)"
    using assms(4,6) scale2_mono_iff [of "e + 1" 1023] by simp
  then have le: "x * x \<le> 2 ^ 1023" by (simp add: scale2_def)
  from assms(1,2) have
    c: "pw x = on_grid (x * x) \<lfloor>x * x / scale2 (e - 52)\<rfloor>
     \<or> pw x = on_grid (x * x) \<lceil>x * x / scale2 (e - 52)\<rceil>"
    unfolding pow_faithful_def q [symmetric] by blast
  have fc: "\<lfloor>x * x / scale2 (e - 52)\<rfloor> = m \<or> \<lfloor>x * x / scale2 (e - 52)\<rfloor> = m + 1"
    "\<lceil>x * x / scale2 (e - 52)\<rceil> = m \<or> \<lceil>x * x / scale2 (e - 52)\<rceil> = m + 1"
    using assms(7,8) by linarith+
  have fin: "on_grid (x * x) k = Fin (real_of_int k * scale2 (e - 52))"
    if "k = m \<or> k = m + 1" for k
  proof -
    have "real_of_int k \<le> x * x / quantum (x * x) + 1"
      using that assms(7) unfolding q by auto
    from on_grid_finite [OF a le this] obtain r where "on_grid (x * x) k = Fin r" by blast
    then show ?thesis unfolding on_grid_def Let_def q by (auto split: if_splits)
  qed
  from c fc fin show ?thesis by metis
qed

lemma pow_faithful_exact:
  assumes "pow_faithful pw" "0 < x"
    and "scale2 e \<le> x * x" "x * x < scale2 (e + 1)" "- 1022 \<le> e" "e \<le> 1022"
    and "x * x / scale2 (e - 52) = real_of_int m"
  shows "pw x = Fin (x * x)"
proof -
  have a: "0 < x * x" using assms(2) by simp
  have q: "quantum (x * x) = scale2 (e - 52)"
    using a assms(3-5) by (rule quantum_eq)
  have "x * x < scale2 (int 1023)"
    using assms(4,6) scale2_mono_iff [of "e + 1" 1023] by simp
  then have le: "x * x \<le> 2 ^ 1023" by (simp add: scale2_def)
  from assms(1,2) have
    "pw x = on_grid (x * x) \<lfloor>x * x / scale2 (e - 52)\<rfloor>
     \<or> pw x = on_grid (x * x) \<lceil>x * x / scale2 (e - 52)\<rceil>"
    unfolding pow_faithful_def q [symmetric] by blast
  then have c: "pw x = on_grid (x * x) m" unfolding assms(7) by simp
  have "real_of_int m \<le> x * x / quantum (x * x) + 1"
    unfolding q assms(7) by simp
  from on_grid_finite [OF a le this] obtain r where r: "on_grid (x * x) m = Fin r" by blast
  have "real_of_int m * scale2 (e - 52) = x * x"
    using assms(7) scale2_pos [of "e - 52"] by (simp add: field_simps)
  with r c show ?thesis unfolding on_grid_def Let_def q by (auto split: if_splits)
qed

subsection \<open>Evaluating \<open>float()\<close> on a string\<close>

lemmas parse_defs = float_of_str_def is_ascii_def strip_c_def is_c_space_def with_sign_def
  parse_float_abs_def parse_decimal_def parse_number_def digitpart_def is_digit_def digit_val_def
  to_lower_def parse_exponent_def pow10_def

subsection \<open>Concrete floats\<close>

lemma fl_70: "fl 70 = Fin 70"
  using fl_eqI [of 70 6 4925812092436480] by (simp add: scale2_def)

lemma fl_50: "fl 50 = Fin 50"
  using fl_eqI [of 50 5 7036874417766400] by (simp add: scale2_def)

lemma fl_400: "fl 400 = Fin 400"
  using fl_eqI [of 400 8 7036874417766400] by (simp add: scale2_def)

lemma fl_175: "fl 1.75 = Fin 1.75"
  using fl_eqI [of "1.75" 0 7881299347898368] by (simp add: scale2_def)

lemma fl_18: "fl 1.8 = Fin (8106479329266893 / 2 ^ 52)"
  using fl_eqI [of "1.8" 0 8106479329266893] by (simp add: scale2_def)

lemma fl_30625: "fl (1.75 * 1.75) = Fin 3.0625"
  using fl_eqI [of "1.75 * 1.75" 1 6896136929411072] by (simp add: scale2_def)

lemma fl_18_sq:
  "fl (8106479329266893 / 2 ^ 52 * (8106479329266893 / 2 ^ 52)) = Fin (7295831396340204 / 2 ^ 51)"
  using fl_eqI [of "8106479329266893 / 2 ^ 52 * (8106479329266893 / 2 ^ 52)" 1 7295831396340204]
  by (simp add: scale2_def)

lemma fl_q70: "fl (70 / 3.0625) = Fin (6433713753386423 / 2 ^ 48)"
  using fl_eqI [of "70 / 3.0625" 4 6433713753386423] by (simp add: scale2_def)

lemma fl_q50: "fl (50 / (7295831396340204 / 2 ^ 51)) = Fin (8687499281193086 / 2 ^ 49)"
  using fl_eqI [of "50 / (7295831396340204 / 2 ^ 51)" 3 8687499281193086] by (simp add: scale2_def)

lemma fl_q400: "fl (400 / 3.0625) = Fin (4595509823847445 / 2 ^ 45)"
  using fl_eqI [of "400 / 3.0625" 7 4595509823847445] by (simp add: scale2_def)

lemma fl_2286: "fl 22.86 = Fin (6434517967605596 / 2 ^ 48)"
  using fl_eqI [of "22.86" 4 6434517967605596] by (simp add: scale2_def)

lemma fl_1543: "fl 15.43 = Fin (8686317781290844 / 2 ^ 49)"
  using fl_eqI [of "15.43" 3 8686317781290844] by (simp add: scale2_def)

lemma fl_13061: "fl 130.61 = Fin (4595430838522348 / 2 ^ 45)"
  using fl_eqI [of "130.61" 7 4595430838522348] by (simp add: scale2_def)

lemma round_q70: "round_half_even (6433713753386423 / 2 ^ 48 * 100) = 2286"
  by (rule round_half_even_eqI) simp_all

lemma round_q50: "round_half_even (8687499281193086 / 2 ^ 49 * 100) = 1543"
  by (rule round_half_even_eqI) simp_all

lemma round_q400: "round_half_even (4595509823847445 / 2 ^ 45 * 100) = 13061"
  by (rule round_half_even_eqI) simp_all

lemma fl_q50_below: "fl (50 / (7295831396340203 / 2 ^ 51)) = Fin (8687499281193087 / 2 ^ 49)"
  using fl_eqI [of "50 / (7295831396340203 / 2 ^ 51)" 3 8687499281193087] by (simp add: scale2_def)

lemma round_q50_below: "round_half_even (8687499281193087 / 2 ^ 49 * 100) = 1543"
  by (rule round_half_even_eqI) simp_all

lemmas fl_values = fl_70 fl_50 fl_400 fl_175 fl_18 fl_30625 fl_18_sq fl_q70 fl_q50 fl_q400
  fl_2286 fl_1543 fl_13061 round_q70 round_q50 round_q400 fl_q50_below round_q50_below

lemmas fl_values_nf = fl_values [simplified]

subsection \<open>Squares under a faithful \<open>pow\<close>\<close>

lemma square_175:
  assumes "pow_faithful (c_pow2 P)"
  shows "flt_square P (Fin 1.75) = Inr (Fin 3.0625)"
proof -
  have "c_pow2 P 1.75 = Fin (1.75 * 1.75)"
    by (rule pow_faithful_exact [OF assms, of "1.75" 1 6896136929411072])
      (simp_all add: scale2_def)
  then show ?thesis by simp
qed

lemma square_18:
  assumes "pow_faithful (c_pow2 P)"
  shows "flt_square P (Fin (8106479329266893 / 2 ^ 52)) = Inr (Fin (7295831396340203 / 2 ^ 51))
         \<or> flt_square P (Fin (8106479329266893 / 2 ^ 52)) = Inr (Fin (7295831396340204 / 2 ^ 51))"
proof -
  have "c_pow2 P (8106479329266893 / 2 ^ 52) = Fin (real_of_int 7295831396340203 * scale2 (1 - 52))
        \<or> c_pow2 P (8106479329266893 / 2 ^ 52)
             = Fin (real_of_int (7295831396340203 + 1) * scale2 (1 - 52))"
    by (rule pow_faithful_between [OF assms]) (simp_all add: scale2_def)
  then show ?thesis by (auto simp: scale2_def)
qed

lemma py_float_ascii:
  "py_float P (PyStr ''70'') = Inr (Fin 70)"
  "py_float P (PyStr ''50'') = Inr (Fin 50)"
  "py_float P (PyStr ''400'') = Inr (Fin 400)"
  "py_float P (PyStr ''1.75'') = Inr (Fin 1.75)"
  "py_float P (PyStr ''1.8'') = Inr (Fin (8106479329266893 / 2 ^ 52))"
  "py_float P (PyStr ''nan'') = Inr NaN"
  by (simp_all add: parse_defs fl_values_nf)

lemma calc_float_70_175:
  assumes "pow_faithful (c_pow2 P)"
  shows "calculate_bmi P (PyFloat (Fin 70)) (PyFloat (Fin 1.75)) = Inr (Some (fl 22.86))"
  using square_175 [OF assms]
  by (simp add: calculate_bmi_def bmi_expression_def fl_values_nf del: flt_square.simps)

lemma calc_float_400_175:
  assumes "pow_faithful (c_pow2 P)"
  shows "calculate_bmi P (PyFloat (Fin 400)) (PyFloat (Fin 1.75)) = Inr (Some (fl 130.61))"
  using square_175 [OF assms]
  by (simp add: calculate_bmi_def bmi_expression_def fl_values_nf del: flt_square.simps)

lemma calc_float_50_18:
  assumes "pow_faithful (c_pow2 P)"
  shows "calculate_bmi P (PyFloat (Fin 50)) (PyFloat (Fin (8106479329266893 / 2 ^ 52)))
           = Inr (Some (fl 15.43))"
  using square_18 [OF assms]
proof
  assume "flt_square P (Fin (8106479329266893 / 2 ^ 52)) = Inr (Fin (7295831396340203 / 2 ^ 51))"
  then show ?thesis
    by (simp add: calculate_bmi_def bmi_expression_def fl_values_nf del: flt_square.simps)
next
  assume "flt_square P (Fin (8106479329266893 / 2 ^ 52)) = Inr (Fin (7295831396340204 / 2 ^ 51))"
  then show ?thesis
    by (simp add: calculate_bmi_def bmi_expression_def fl_values_nf del: flt_square.simps)
qed

lemma calc_text_eq:
  assumes "py_float P (PyStr s) = Inr x" "py_float P (PyStr t) = Inr y"
  shows "calculate_bmi P (PyStr s) (PyStr t) = calculate_bmi P (PyFloat x) (PyFloat y)"
  using assms by (simp add: calculate_bmi_def bmi_expression_def)

lemma calc_70_175:
  assumes "pow_faithful (c_pow2 P)"
  shows "calculate_bmi P (PyStr ''70'') (PyStr ''1.75'') = Inr (Some (fl 22.86))"
  using calc_float_70_175 [OF assms] calc_text_eq [OF py_float_ascii(1) py_float_ascii(4)]
  by simp

lemma calc_50_18:
  assumes "pow_faithful (c_pow2 P)"
  shows "calculate_bmi P (PyStr ''50'') (PyStr ''1.8'') = Inr (Some (fl 15.43))"
  using calc_float_50_18 [OF assms] calc_text_eq [OF py_float_ascii(2) py_float_ascii(5)]
  by simp

lemma calc_400_175:
  assumes "pow_faithful (c_pow2 P)"
  shows "calculate_bmi P (PyStr ''400'') (PyStr ''1.75'') = Inr (Some (fl 130.61))"
  using calc_float_400_175 [OF assms] calc_text_eq [OF py_float_ascii(3) py_float_ascii(4)]
  by simp

lemma example_platform_faithful: "pow_faithful (c_pow2 example_platform)"
  by (simp add: example_platform_def pow_faithful_nearest)

subsection \<open>Facts about the calculator\<close>

lemma py_float_error: "py_float P v = Inl e \<Longrightarrow> e = ValueError"
  by (cases v) (auto split: option.splits)

lemma flt_square_error: "flt_square P h = Inl e \<Longrightarrow> e = OverflowError"
  by (cases h) (auto split: pyfloat.splits if_splits)

lemma flt_div_error: "flt_div a b = Inl e \<longleftrightarrow> e = ZeroDivisionError \<and> b = Fin 0"
  by (cases a; cases b) auto


lemma flt_square_NaN: "flt_square P NaN = Inr NaN"
  by simp


lemma bmi_expression_Inr:
  "bmi_expression P w h = Inr b \<longleftrightarrow>
     (\<exists>wf hf h2 q. py_float P w = Inr wf \<and> py_float P h = Inr hf \<and> flt_square P hf = Inr h2
        \<and> flt_div wf h2 = Inr q \<and> b = py_round2 q)"
  by (auto simp: bmi_expression_def split: sum.splits)

lemma bmi_Some_when_returned:
  "calculate_bmi P w h = Inr (Some b) \<longleftrightarrow> bmi_expression P w h = Inr b"
  by (auto simp: calculate_bmi_def split: sum.splits)

lemma bmi_expression_handled:
  "(\<exists>e. bmi_expression P w h = Inl e \<and> handled e) \<longleftrightarrow>
     (py_float P w = Inl ValueError \<or> py_float P h = Inl ValueError
      \<or> (\<exists>wf hf. py_float P w = Inr wf \<and> py_float P h = Inr hf
            \<and> flt_square P hf = Inr (Fin 0)))"
  by (auto simp: bmi_expression_def handled_def flt_div_error split: sum.splits
      dest: py_float_error flt_square_error)

lemma bmi_expression_Inl:
  "bmi_expression P w h = Inl e \<longleftrightarrow>
     (e = ValueError \<and> (py_float P w = Inl ValueError \<or> py_float P h = Inl ValueError))
     \<or> (\<exists>wf hf. py_float P w = Inr wf \<and> py_float P h = Inr hf
           \<and> ((e = OverflowError \<and> flt_square P hf = Inl OverflowError)
                \<or> (e = ZeroDivisionError \<and> flt_square P hf = Inr (Fin 0))))"
  by (auto simp: bmi_expression_def flt_div_error split: sum.splits
      dest: py_float_error flt_square_error)

lemma bmi_None_when_handled:
  "calculate_bmi P w h = Inr None \<longleftrightarrow> (\<exists>e. bmi_expression P w h = Inl e \<and> handled e)"
  by (auto simp: calculate_bmi_def split: sum.splits)

lemma in_range_iff:
  "\<not> flt_le v (Fin 0) \<and> \<not> flt_lt (Fin c) v \<longleftrightarrow> v = NaN \<or> (\<exists>x. v = Fin x \<and> 0 < x \<and> x \<le> c)"
  by (cases v) auto

lemma validate_input_True:
  "validate_input P w h = (True, msg) \<longleftrightarrow>
     msg = ''Valid input'' \<and>
     (\<exists>wf hf. py_float P w = Inr wf \<and> py_float P h = Inr hf
        \<and> (wf = NaN \<or> (\<exists>x. wf = Fin x \<and> 0 < x \<and> x \<le> 300))
        \<and> (hf = NaN \<or> (\<exists>y. hf = Fin y \<and> 0 < y \<and> y \<le> 2.5)))"
  unfolding in_range_iff [symmetric]
  by (auto simp: validate_input_def split: sum.splits)

lemma validate_input_rejects_zero:
  assumes "py_float P w = Inr (Fin 0) \<or> py_float P h = Inr (Fin 0)"
  shows "validate_input P w h = (False, ''Weight and height must be positive numbers'')
         \<or> validate_input P w h = (False, ''Please enter valid numbers for weight and height'')"
  using assms by (auto simp: validate_input_def split: sum.splits)

lemma flt_square_accepted:
  assumes "pow_faithful (c_pow2 P)" "0 < y" "y \<le> 2.5"
  shows "\<exists>r. flt_square P (Fin y) = Inr (Fin r)"
proof -
  have "y * y \<le> 2.5 * 2.5" using assms(2,3) by (intro mult_mono) simp_all
  also have "\<dots> \<le> (2::real) ^ 1023"
    by (rule order_trans [of _ "2 ^ 3"]) (simp, rule power_increasing, simp_all)
  finally have "y * y \<le> 2 ^ 1023" .
  with assms(1,2) obtain r where "c_pow2 P y = Fin r" using pow_faithful_finite by blast
  with assms(2) show ?thesis by simp
qed

lemma flt_square_nonzero:
  assumes "pow_faithful (c_pow2 P)" "1 / 2 ^ 537 \<le> y"
  shows "flt_square P (Fin y) \<noteq> Inr (Fin 0)"
proof -
  have p: "(0::real) < 1 / 2 ^ 537" by simp
  with assms(2) have y: "0 < y" by linarith
  have "(1 / 2 ^ 537) * (1 / 2 ^ 537) \<le> y * y"
    using assms(2) p by (intro mult_mono) simp_all
  moreover have "(1 / 2 ^ 537) * (1 / 2 ^ 537) = 1 / (2::real) ^ 1074"
    by (simp add: power_add [symmetric])
  ultimately have "1 / 2 ^ 1074 \<le> y * y" by simp
  with assms(1) y have "c_pow2 P y \<noteq> Fin 0" by (rule pow_faithful_nonzero)
  with y show ?thesis by (auto split: pyfloat.splits)
qed

subsection \<open>Facts about the store\<close>

lemma mset_insert_desc: "mset (insert_desc r xs) = add_mset r (mset xs)"
  by (induction xs) auto

lemma mset_order_by_timestamp_desc: "mset (order_by_timestamp_desc xs) = mset xs"
  unfolding order_by_timestamp_desc_def by (induction xs) (auto simp: mset_insert_desc)

lemma set_insert_desc: "set (insert_desc r xs) = insert r (set xs)"
  by (induction xs) auto

lemma set_order_by_timestamp_desc: "set (order_by_timestamp_desc xs) = set xs"
  using mset_order_by_timestamp_desc [of xs] by (rule mset_eq_setD)

lemma sorted_insert_desc:
  "sorted_wrt (\<lambda>a b. fst b \<le> fst a) xs \<Longrightarrow> sorted_wrt (\<lambda>a b. fst b \<le> fst a) (insert_desc r xs)"
  by (induction xs) (auto simp: set_insert_desc)

lemma sorted_order_by_timestamp_desc:
  "sorted_wrt (\<lambda>a b. fst b \<le> fst a) (order_by_timestamp_desc xs)"
  unfolding order_by_timestamp_desc_def by (induction xs) (auto intro: sorted_insert_desc)

lemma real_value_Some: "real_value b = Some v \<longleftrightarrow> b \<noteq> NaN \<and> v = PyFloat b"
  by (cases b) auto

lemma real_value_None: "real_value b = None \<longleftrightarrow> b = NaN"
  by (cases b) auto

lemma sql_insert_Inr:
  "sql_insert P fault db u w h b c ts = Inr db' \<longleftrightarrow>
     \<not> fault \<and> b \<noteq> NaN \<and>
     (\<exists>rows w' h'. db = Some rows \<and> real_column P w = Some w' \<and> real_column P h = Some h'
        \<and> db' = Some (rows @
             [\<lparr>rec_id = Suc (length rows), username = u, weight = w', height = h', bmi = b,
               category = c, timestamp = ts\<rparr>]))"
  by (cases b; cases "real_column P w"; cases "real_column P h"; cases db)
    (auto simp: sql_insert_def)

lemma save_to_database_cases:
  "save_to_database P fault now db u w h b c = (ok, db') \<Longrightarrow>
     (\<not> ok \<and> db' = db) \<or>
     (ok \<and> \<not> fault \<and> b \<noteq> NaN \<and>
      (\<exists>rows w' h'. db = Some rows \<and> real_column P w = Some w' \<and> real_column P h = Some h'
         \<and> db' = Some (rows @
             [\<lparr>rec_id = Suc (length rows), username = u, weight = w', height = h', bmi = b,
               category = c, timestamp = now\<rparr>])))"
  by (cases "sql_insert P fault db u w h b c now")
    (auto simp: save_to_database_def sql_insert_Inr)

lemma save_to_database_succeeds:
  "fst (save_to_database P fault now db u w h b c) \<longleftrightarrow>
     \<not> fault \<and> db \<noteq> None \<and> b \<noteq> NaN \<and> real_column P w \<noteq> None \<and> real_column P h \<noteq> None"
proof -
  have "fst (save_to_database P fault now db u w h b c) \<longleftrightarrow>
      (\<exists>db'. sql_insert P fault db u w h b c now = Inr db')"
    by (cases "sql_insert P fault db u w h b c now") (auto simp: save_to_database_def)
  then show ?thesis unfolding sql_insert_Inr by auto
qed

lemma database_after_append:
  "\<exists>new. database_after P step (Some rows) = Some (rows @ new) \<and> length new \<le> 1"
proof -
  obtain fault now op where step: "step = (fault, now, op)" by (cases step)
  show ?thesis
  proof (cases op)
    case OpInit
    then show ?thesis by (simp add: step init_database_def sql_create_table_def)
  next
    case (OpSave u w h b c)
    obtain ok db' where s: "save_to_database P fault now (Some rows) u w h b c = (ok, db')"
      by (cases "save_to_database P fault now (Some rows) u w h b c")
    from save_to_database_cases [OF s] show ?thesis
      unfolding step OpSave by (auto simp: s)
  next
    case (OpHistory u)
    then show ?thesis by (simp add: step)
  next
    case OpAllUsers
    then show ?thesis by (simp add: step)
  qed
qed

lemma run_ops_append: "\<exists>new. run_ops P steps (Some rows) = Some (rows @ new)"
  unfolding run_ops_def
proof (induction steps arbitrary: rows)
  case Nil
  then show ?case by simp
next
  case (Cons s steps)
  obtain new where n: "database_after P s (Some rows) = Some (rows @ new)"
    using database_after_append by blast
  obtain new' where
    "fold (database_after P) steps (Some (rows @ new)) = Some ((rows @ new) @ new')"
    using Cons.IH by blast
  with n show ?case by simp
qed

subsection \<open>Worked examples shared by the properties\<close>

lemma fl_1e_200: "fl (1 / 10 ^ 200) = Fin (6894565328877484 / 2 ^ 717)"
  using fl_eqI [of "1 / 10 ^ 200" "- 665" 6894565328877484] by (simp add: scale2_def)

lemma square_1e_200_underflows:
  "flt_square example_platform (Fin (6894565328877484 / 2 ^ 717)) = Inr (Fin 0)"
proof -
  have "fl (6894565328877484 / 2 ^ 717 * (6894565328877484 / 2 ^ 717)) = Fin 0"
    by (rule fl_underflow) simp
  then show ?thesis by (simp add: example_platform_def pow_nearest_def)
qed

lemma py_float_1e_200:
  "py_float P (PyStr ''1e-200'') = Inr (Fin (6894565328877484 / 2 ^ 717))"
  using fl_1e_200 by (simp add: parse_defs)

lemma valid_70_175: "validate_input P (PyStr ''70'') (PyStr ''1.75'') = (True, ''Valid input'')"
  by (simp add: validate_input_def py_float_ascii del: py_float.simps)

lemma strip_plain [simp]:
  "strip P ''alice'' = ''alice''" "strip P ''70'' = ''70''" "strip P ''1.75'' = ''1.75''"
  "strip P ''nan'' = ''nan''"
  by (simp_all add: strip_def is_space_def is_ascii_def)

lemmas atof_defs = example_platform_def atof_nearest_def is_ascii_def strip_c_def is_c_space_def
  with_sign_def parse_decimal_def parse_number_def digitpart_def is_digit_def digit_val_def
  parse_exponent_def pow10_def

lemma real_column_examples:
  "real_column example_platform (PyStr ''70'') = Some (PyFloat (Fin 70))"
  "real_column example_platform (PyStr ''1.75'') = Some (PyFloat (Fin 1.75))"
  "real_column example_platform (PyStr ''nan'') = Some (PyStr ''nan'')"
  by (simp_all add: atof_defs fl_values_nf)

lemma classify_examples:
  "classify_bmi (fl 22.86) = ''Normal weight''" "classify_bmi (fl 15.43) = ''Underweight''"
  "classify_bmi NaN = ''Obese''"
  by (simp_all add: classify_bmi_def fl_values_nf)


lemma save_bob:
  "save_to_database example_platform False ''2024-05-01 10:00:00''
     (Some [\<lparr>rec_id = 1, username = ''ann'', weight = PyFloat (Fin 60), height = PyFloat (Fin 1.6),
        bmi = Fin 23.44, category = ''Normal weight'', timestamp = ''2024-04-30 09:00:00''\<rparr>])
     ''bob'' (PyStr ''70'') (PyStr ''1.75'') (Fin 22.86) ''Normal weight'' =
   (True,
    Some [\<lparr>rec_id = 1, username = ''ann'', weight = PyFloat (Fin 60), height = PyFloat (Fin 1.6),
        bmi = Fin 23.44, category = ''Normal weight'', timestamp = ''2024-04-30 09:00:00''\<rparr>,
      \<lparr>rec_id = 2, username = ''bob'', weight = PyFloat (Fin 70), height = PyFloat (Fin 1.75),
        bmi = Fin 22.86, category = ''Normal weight'', timestamp = ''2024-05-01 10:00:00''\<rparr>])"
  by (simp add: save_to_database_def sql_insert_def real_column_examples del: real_column.simps)

section \<open>Properties\<close>

subsection \<open>Classification thresholds\<close>

text \<open>
  C1. For every BMI value \<open>classify_bmi\<close> returns the category fixed by the thresholds:
  Underweight below 18.5, Normal weight from 18.5 up to but excluding 25, Overweight from
  25 up to but excluding 30, and Obese otherwise (which is where \<open>+inf\<close> and NaN fall);
  the result is always one of the four category names.
\<close>

theorem classify_bmi_thresholds:
  "classify_bmi (Fin x) =
     (if x < 18.5 then ''Underweight''
      else if x < 25 then ''Normal weight''
      else if x < 30 then ''Overweight''
      else ''Obese'')
   \<and> classify_bmi NegInf = ''Underweight''
   \<and> classify_bmi PosInf = ''Obese''
   \<and> classify_bmi NaN = ''Obese''
   \<and> classify_bmi b \<in> {''Underweight'', ''Normal weight'', ''Overweight'', ''Obese''}"
proof -
  have fin: "classify_bmi (Fin x) =
     (if x < 18.5 then ''Underweight''
      else if x < 25 then ''Normal weight''
      else if x < 30 then ''Overweight''
      else ''Obese'')"
    by (simp add: classify_bmi_def)
  have rest: "classify_bmi NegInf = ''Underweight''" "classify_bmi PosInf = ''Obese''"
    "classify_bmi NaN = ''Obese''"
    by (simp_all add: classify_bmi_def)
  have range: "classify_bmi b \<in> {''Underweight'', ''Normal weight'', ''Overweight'', ''Obese''}"
    unfolding classify_bmi_def by (simp del: flt_lt.simps flt_le.simps)
  from fin rest range show ?thesis by blast
qed

theorem classify_bmi_thresholds_witness:
  "classify_bmi (Fin 18.5) = ''Normal weight'' \<and> classify_bmi (Fin 24.99) = ''Normal weight''
   \<and> classify_bmi (Fin 25) = ''Overweight'' \<and> classify_bmi (Fin 30) = ''Obese''
   \<and> classify_bmi (Fin 18.49) = ''Underweight''"
  using classify_bmi_thresholds [of "18.5" NaN] classify_bmi_thresholds [of "24.99" NaN]
    classify_bmi_thresholds [of 25 NaN] classify_bmi_thresholds [of 30 NaN]
    classify_bmi_thresholds [of "18.49" NaN]
  by simp

subsection \<open>The stored BMI\<close>




subsection \<open>Validation\<close>

text \<open>
  C3. \<open>validate_input\<close> is meant to accept exactly \<open>0 < weight \<le> 300\<close> and
  \<open>0 < height \<le> 2.5\<close>, but each of its range tests is a comparison that NaN fails, so
  the text \<open>nan\<close> (which \<open>float()\<close> parses) passes all of them: the input is reported
  valid although NaN is not positive, and the calculation then shows the BMI \<open>nan\<close> in
  category Obese, with "Data saved: No" because the insert of a NaN bmi fails.
  \<open>validate_input_True\<close> above gives the exact set of accepted inputs, and
  \<open>validate_input_rejects_zero\<close> the error for a zero weight or height.
\<close>

theorem validate_input_accepts_nan:
  "validate_input P (PyStr ''nan'') (PyStr ''1.75'') = (True, ''Valid input'')
   \<and> py_float P (PyStr ''nan'') = Inr NaN
   \<and> \<not> flt_lt (Fin 0) NaN
   \<and> calculate_bmi example_platform (PyStr ''nan'') (PyStr ''1.75'') = Inr (Some NaN)
   \<and> classify_bmi NaN = ''Obese''
   \<and> calculate_bmi_gui example_platform False ''2024-05-01 10:00:00'' (Some [])
        ''alice'' ''nan'' ''1.75'' =
      (Displayed ''alice'' ''nan'' ''1.75'' NaN ''Obese'' False, Some [])"
proof -
  have v: "validate_input P (PyStr ''nan'') (PyStr ''1.75'') = (True, ''Valid input'')" for P
    by (simp add: validate_input_def py_float_ascii del: py_float.simps)
  have c: "calculate_bmi example_platform (PyStr ''nan'') (PyStr ''1.75'') = Inr (Some NaN)"
    using square_175 [OF example_platform_faithful]
    by (simp add: calculate_bmi_def bmi_expression_def py_float_ascii
        del: py_float.simps flt_square.simps)
  have s: "save_to_database example_platform False ''2024-05-01 10:00:00'' (Some []) ''alice''
      (PyStr ''nan'') (PyStr ''1.75'') NaN ''Obese'' = (False, Some [])"
    by (simp add: save_to_database_def sql_insert_def real_column_examples
        del: real_column.simps)
  have g: "calculate_bmi_gui example_platform False ''2024-05-01 10:00:00'' (Some [])
        ''alice'' ''nan'' ''1.75'' =
      (Displayed ''alice'' ''nan'' ''1.75'' NaN ''Obese'' False, Some [])"
    unfolding calculate_bmi_gui_def Let_def strip_plain v c
    using s classify_examples(3) by simp
  from v c g py_float_ascii(6) [of P] classify_examples(3) show ?thesis by simp
qed

subsection \<open>The two documented examples\<close>

text \<open>
  C4. Weight 70 and height 1.75 give the BMI 22.86 (the float nearest to 22.86) in
  category "Normal weight"; weight 50 and height 1.8 give 15.43 in category
  "Underweight". Both hold for the entry texts and for float arguments, whichever of
  the two floats next to the exact square the C library's \<open>pow\<close> returns.
\<close>

theorem bmi_examples:
  assumes "pow_faithful (c_pow2 P)"
  shows "calculate_bmi P (PyStr ''70'') (PyStr ''1.75'') = Inr (Some (fl 22.86))
   \<and> calculate_bmi P (PyFloat (Fin 70)) (PyFloat (Fin 1.75)) = Inr (Some (fl 22.86))
   \<and> classify_bmi (fl 22.86) = ''Normal weight''
   \<and> calculate_bmi P (PyStr ''50'') (PyStr ''1.8'') = Inr (Some (fl 15.43))
   \<and> calculate_bmi P (PyFloat (Fin 50)) (PyFloat (fl 1.8)) = Inr (Some (fl 15.43))
   \<and> classify_bmi (fl 15.43) = ''Underweight''"
proof -
  have b: "calculate_bmi P (PyFloat (Fin 50)) (PyFloat (fl 1.8)) = Inr (Some (fl 15.43))"
    unfolding fl_18 by (rule calc_float_50_18 [OF assms])
  from calc_70_175 [OF assms] calc_50_18 [OF assms] calc_float_70_175 [OF assms] b
    classify_examples(1,2)
  show ?thesis by blast
qed

text \<open>
  C4, witness: the platform whose \<open>pow\<close> is correctly rounded.
\<close>

theorem bmi_examples_witness:
  "calculate_bmi example_platform (PyStr ''70'') (PyStr ''1.75'') = Inr (Some (fl 22.86))
   \<and> classify_bmi (fl 22.86) = ''Normal weight''
   \<and> calculate_bmi example_platform (PyStr ''50'') (PyStr ''1.8'') = Inr (Some (fl 15.43))
   \<and> classify_bmi (fl 15.43) = ''Underweight''"
  using bmi_examples [OF example_platform_faithful] by blast

subsection \<open>Writing and reading records\<close>

text \<open>
  C5, counterexample. The GUI writes the entry texts \<open>70\<close> and \<open>1.75\<close> as weight and
  height; the \<open>REAL\<close> columns convert them, and the history read back holds the floats
  70.0 and 1.75, which are not the strings that were written.
\<close>

theorem history_returns_converted_values:
  "save_to_database example_platform False ''2024-05-01 10:00:00''
     (Some [\<lparr>rec_id = 1, username = ''ann'', weight = PyFloat (Fin 60), height = PyFloat (Fin 1.6),
        bmi = Fin 23.44, category = ''Normal weight'', timestamp = ''2024-04-30 09:00:00''\<rparr>])
     ''bob'' (PyStr ''70'') (PyStr ''1.75'') (Fin 22.86) ''Normal weight'' =
   (True,
    Some [\<lparr>rec_id = 1, username = ''ann'', weight = PyFloat (Fin 60), height = PyFloat (Fin 1.6),
        bmi = Fin 23.44, category = ''Normal weight'', timestamp = ''2024-04-30 09:00:00''\<rparr>,
      \<lparr>rec_id = 2, username = ''bob'', weight = PyFloat (Fin 70), height = PyFloat (Fin 1.75),
        bmi = Fin 22.86, category = ''Normal weight'', timestamp = ''2024-05-01 10:00:00''\<rparr>])
   \<and> get_user_history False
     (Some [\<lparr>rec_id = 1, username = ''ann'', weight = PyFloat (Fin 60), height = PyFloat (Fin 1.6),
        bmi = Fin 23.44, category = ''Normal weight'', timestamp = ''2024-04-30 09:00:00''\<rparr>,
      \<lparr>rec_id = 2, username = ''bob'', weight = PyFloat (Fin 70), height = PyFloat (Fin 1.75),
        bmi = Fin 22.86, category = ''Normal weight'', timestamp = ''2024-05-01 10:00:00''\<rparr>])
     ''bob'' =
     [(''2024-05-01 10:00:00'', PyFloat (Fin 70), PyFloat (Fin 1.75), Fin 22.86,
       ''Normal weight'')]
   \<and> PyFloat (Fin 70) \<noteq> PyStr ''70'' \<and> PyFloat (Fin 1.75) \<noteq> PyStr ''1.75''"
proof -
  have "get_user_history False
     (Some [\<lparr>rec_id = 1, username = ''ann'', weight = PyFloat (Fin 60), height = PyFloat (Fin 1.6),
        bmi = Fin 23.44, category = ''Normal weight'', timestamp = ''2024-04-30 09:00:00''\<rparr>,
      \<lparr>rec_id = 2, username = ''bob'', weight = PyFloat (Fin 70), height = PyFloat (Fin 1.75),
        bmi = Fin 22.86, category = ''Normal weight'', timestamp = ''2024-05-01 10:00:00''\<rparr>])
     ''bob'' =
     [(''2024-05-01 10:00:00'', PyFloat (Fin 70), PyFloat (Fin 1.75), Fin 22.86,
       ''Normal weight'')]"
    by (simp add: get_user_history_def sql_select_history_def order_by_timestamp_desc_def)
  with save_bob show ?thesis by simp
qed

text \<open>
  C5, as amended. \<open>save_to_database\<close> succeeds exactly when the database call does not
  fail, the table exists, the bmi is not NaN and neither the weight nor the height is
  stored as \<open>NULL\<close>. After a save that succeeded, the history read back for that username
  holds a row with the timestamp, bmi and category that were written, and with the
  weight and the height as the \<open>REAL\<close> columns keep them: a float other than NaN
  unchanged, a text that SQLite reads as a number as that number. The username is not
  among the columns returned.
\<close>

theorem save_then_history_roundtrip:
  "(fst (save_to_database P fault now db u w h b c) \<longleftrightarrow>
      \<not> fault \<and> db \<noteq> None \<and> b \<noteq> NaN \<and> real_column P w \<noteq> None \<and> real_column P h \<noteq> None)
   \<and> (save_to_database P fault now db u w h b c = (True, db') \<longrightarrow>
        (\<exists>w' h'. real_column P w = Some w' \<and> real_column P h = Some h'
           \<and> (now, w', h', b, c) \<in> set (get_user_history False db' u)))
   \<and> (x \<noteq> NaN \<longrightarrow> real_column P (PyFloat x) = Some (PyFloat x))
   \<and> (sqlite_text_to_real P s = Some x \<and> x \<noteq> NaN \<longrightarrow>
        real_column P (PyStr s) = Some (PyFloat x))
   \<and> (sqlite_text_to_real P s = None \<longrightarrow> real_column P (PyStr s) = Some (PyStr s))"
proof -
  have read: "\<exists>w' h'. real_column P w = Some w' \<and> real_column P h = Some h'
           \<and> (now, w', h', b, c) \<in> set (get_user_history False db' u)"
    if s: "save_to_database P fault now db u w h b c = (True, db')"
  proof -
    from save_to_database_cases [OF s] obtain rows w' h' where
      c: "real_column P w = Some w'" "real_column P h = Some h'"
      and db': "db' = Some (rows @
        [\<lparr>rec_id = Suc (length rows), username = u, weight = w', height = h', bmi = b,
          category = c, timestamp = now\<rparr>])"
      by auto
    have "(now, w', h', b, c) \<in> set (get_user_history False db' u)"
      unfolding db' get_user_history_def sql_select_history_def
      by (simp add: set_order_by_timestamp_desc)
    with c show ?thesis by blast
  qed
  have col: "x \<noteq> NaN \<longrightarrow> real_column P (PyFloat x) = Some (PyFloat x)"
    "sqlite_text_to_real P s = Some x \<and> x \<noteq> NaN \<longrightarrow> real_column P (PyStr s) = Some (PyFloat x)"
    "sqlite_text_to_real P s = None \<longrightarrow> real_column P (PyStr s) = Some (PyStr s)"
    by (simp_all add: real_value_Some)
  from save_to_database_succeeds [of P fault now db u w h b c] read col
  show ?thesis by blast
qed

text \<open>
  C5, witness: saving a record for \<open>bob\<close> into a table that holds one for \<open>ann\<close>.
\<close>

theorem save_then_history_roundtrip_witness:
  "(''2024-05-01 10:00:00'', PyFloat (Fin 70), PyFloat (Fin 1.75), Fin 22.86, ''Normal weight'')
     \<in> set (get_user_history False
         (Some [\<lparr>rec_id = 1, username = ''ann'', weight = PyFloat (Fin 60),
            height = PyFloat (Fin 1.6), bmi = Fin 23.44, category = ''Normal weight'',
            timestamp = ''2024-04-30 09:00:00''\<rparr>,
          \<lparr>rec_id = 2, username = ''bob'', weight = PyFloat (Fin 70),
            height = PyFloat (Fin 1.75), bmi = Fin 22.86, category = ''Normal weight'',
            timestamp = ''2024-05-01 10:00:00''\<rparr>])
         ''bob'')
   \<and> real_column example_platform (PyFloat (Fin 70)) = Some (PyFloat (Fin 70))"
  using save_then_history_roundtrip [of example_platform False "''2024-05-01 10:00:00''"
      "Some [\<lparr>rec_id = 1, username = ''ann'', weight = PyFloat (Fin 60),
            height = PyFloat (Fin 1.6), bmi = Fin 23.44, category = ''Normal weight'',
            timestamp = ''2024-04-30 09:00:00''\<rparr>]"
      "''bob''" "PyStr ''70''" "PyStr ''1.75''" "Fin 22.86" "''Normal weight''"
      "Some [\<lparr>rec_id = 1, username = ''ann'', weight = PyFloat (Fin 60),
            height = PyFloat (Fin 1.6), bmi = Fin 23.44, category = ''Normal weight'',
            timestamp = ''2024-04-30 09:00:00''\<rparr>,
          \<lparr>rec_id = 2, username = ''bob'', weight = PyFloat (Fin 70),
            height = PyFloat (Fin 1.75), bmi = Fin 22.86, category = ''Normal weight'',
            timestamp = ''2024-05-01 10:00:00''\<rparr>]"
      "Fin 70"]
    save_bob real_column_examples(1,2)
  by (simp del: real_column.simps)

text \<open>
  C6. \<open>get_user_history\<close> returns exactly the stored records of the username (as a
  multiset: each as often as it is stored, and no other), each as its timestamp, weight,
  height, bmi and category, in descending order of the stored timestamp. A username
  without records gets the empty list.
\<close>

theorem get_user_history_exact_sorted:
  "mset (get_user_history False (Some rows) u) =
     mset (map (\<lambda>r. (timestamp r, weight r, height r, bmi r, category r))
            (filter (\<lambda>r. username r = u) rows))
   \<and> sorted_wrt (\<lambda>a b. fst b \<le> fst a) (get_user_history False (Some rows) u)
   \<and> length (get_user_history False (Some rows) u) =
       length (filter (\<lambda>r. username r = u) rows)"
proof -
  have m: "mset (get_user_history False (Some rows) u) =
     mset (map (\<lambda>r. (timestamp r, weight r, height r, bmi r, category r))
            (filter (\<lambda>r. username r = u) rows))"
    by (simp add: get_user_history_def sql_select_history_def mset_order_by_timestamp_desc)
  have s: "sorted_wrt (\<lambda>a b. fst b \<le> fst a) (get_user_history False (Some rows) u)"
    by (simp add: get_user_history_def sql_select_history_def sorted_order_by_timestamp_desc)
  from mset_eq_length [OF m]
  have l: "length (get_user_history False (Some rows) u) =
       length (filter (\<lambda>r. username r = u) rows)"
    by simp
  from m s l show ?thesis by blast
qed

subsection \<open>What \<open>calculate_bmi\<close> rejects\<close>

text \<open>
  C7, counterexample. \<open>validate_input\<close> rejects weight 400 as too high, yet
  \<open>calculate_bmi\<close> returns a BMI for it, 130.61: it does not check the range.
\<close>

theorem calculate_bmi_ignores_range:
  "validate_input example_platform (PyStr ''400'') (PyStr ''1.75'')
     = (False, ''Weight seems too high. Please check your input.'')
   \<and> calculate_bmi example_platform (PyStr ''400'') (PyStr ''1.75'') = Inr (Some (fl 130.61))
   \<and> fl 130.61 = Fin (4595430838522348 / 2 ^ 45)"
proof -
  have "validate_input example_platform (PyStr ''400'') (PyStr ''1.75'')
     = (False, ''Weight seems too high. Please check your input.'')"
    by (simp add: validate_input_def py_float_ascii del: py_float.simps)
  with calc_400_175 [OF example_platform_faithful] fl_13061 show ?thesis by blast
qed

text \<open>
  C7, as amended. \<open>calculate_bmi\<close> returns \<open>None\<close> exactly when the weight or the
  height is not numeric or the square of the height is zero; it raises (an uncaught
  \<open>OverflowError\<close>) exactly when both are numeric and the square of the height
  overflows; and it returns a BMI for every other input, whatever its sign or size. The
  range of numeric input is checked by \<open>validate_input\<close>, which the GUI calls first.
\<close>

theorem calculate_bmi_outcomes:
  "(calculate_bmi P w h = Inr None \<longleftrightarrow>
      (py_float P w = Inl ValueError \<or> py_float P h = Inl ValueError
       \<or> (\<exists>wf hf. py_float P w = Inr wf \<and> py_float P h = Inr hf \<and> flt_square P hf = Inr (Fin 0))))
   \<and> (calculate_bmi P w h = Inl e \<longleftrightarrow>
      e = OverflowError \<and>
      (\<exists>wf hf. py_float P w = Inr wf \<and> py_float P h = Inr hf \<and> flt_square P hf = Inl OverflowError))
   \<and> ((\<exists>b. calculate_bmi P w h = Inr (Some b)) \<longleftrightarrow>
      (\<exists>wf hf h2. py_float P w = Inr wf \<and> py_float P h = Inr hf \<and> flt_square P hf = Inr h2
         \<and> h2 \<noteq> Fin 0))"
proof -
  have none: "calculate_bmi P w h = Inr None \<longleftrightarrow>
      (py_float P w = Inl ValueError \<or> py_float P h = Inl ValueError
       \<or> (\<exists>wf hf. py_float P w = Inr wf \<and> py_float P h = Inr hf \<and> flt_square P hf = Inr (Fin 0)))"
    by (simp only: bmi_None_when_handled bmi_expression_handled)
  have exn: "calculate_bmi P w h = Inl e \<longleftrightarrow>
      e = OverflowError \<and>
      (\<exists>wf hf. py_float P w = Inr wf \<and> py_float P h = Inr hf \<and> flt_square P hf = Inl OverflowError)"
  proof -
    have "calculate_bmi P w h = Inl e \<longleftrightarrow> bmi_expression P w h = Inl e \<and> \<not> handled e"
      by (auto simp: calculate_bmi_def split: sum.splits if_splits)
    then show ?thesis
      unfolding bmi_expression_Inl by (auto simp: handled_def)
  qed
  have some: "(\<exists>b. calculate_bmi P w h = Inr (Some b)) \<longleftrightarrow>
      (\<exists>wf hf h2. py_float P w = Inr wf \<and> py_float P h = Inr hf \<and> flt_square P hf = Inr h2
         \<and> h2 \<noteq> Fin 0)"
  proof -
    have "(\<exists>q. flt_div wf h2 = Inr q) \<longleftrightarrow> h2 \<noteq> Fin 0" for wf h2
      using flt_div_error [of wf h2] by (cases "flt_div wf h2") auto
    then show ?thesis
      unfolding bmi_Some_when_returned bmi_expression_Inr by blast
  qed
  from none exn some show ?thesis by blast
qed

subsection \<open>The store only grows\<close>

text \<open>
  C8. The store is append-only: after any sequence of the class's store operations, after
  any single one, and after a GUI calculation, the table is the old table followed by
  new rows (at most one per operation), so every stored record is unchanged.
\<close>

theorem store_append_only:
  "(\<exists>new. run_ops P steps (Some rows) = Some (rows @ new))
   \<and> (\<exists>new. database_after P step (Some rows) = Some (rows @ new) \<and> length new \<le> 1)
   \<and> (\<exists>new. snd (calculate_bmi_gui P fault now (Some rows) ue we he) = Some (rows @ new)
          \<and> length new \<le> 1)"
proof -
  have gui: "\<exists>new. snd (calculate_bmi_gui P fault now (Some rows) ue we he) = Some (rows @ new)
          \<and> length new \<le> 1"
  proof -
    have "snd (calculate_bmi_gui P fault now (Some rows) ue we he) = Some rows
        \<or> (\<exists>b. snd (calculate_bmi_gui P fault now (Some rows) ue we he) =
              database_after P
                (fault, now, OpSave (strip P ue) (PyStr (strip P we)) (PyStr (strip P he)) b
                   (classify_bmi b))
                (Some rows))"
      by (auto simp: calculate_bmi_gui_def Let_def case_prod_beta
          split: if_splits bool.splits sum.splits option.splits)
    then show ?thesis
    proof
      assume "snd (calculate_bmi_gui P fault now (Some rows) ue we he) = Some rows"
      then have "snd (calculate_bmi_gui P fault now (Some rows) ue we he) = Some (rows @ [])
          \<and> length ([] :: bmi_record list) \<le> 1"
        by simp
      then show ?thesis by (rule exI)
    next
      assume "\<exists>b. snd (calculate_bmi_gui P fault now (Some rows) ue we he) =
              database_after P
                (fault, now, OpSave (strip P ue) (PyStr (strip P we)) (PyStr (strip P he)) b
                   (classify_bmi b))
                (Some rows)"
      then obtain b where "snd (calculate_bmi_gui P fault now (Some rows) ue we he) =
              database_after P
                (fault, now, OpSave (strip P ue) (PyStr (strip P we)) (PyStr (strip P he)) b
                   (classify_bmi b))
                (Some rows)"
        by (rule exE)
      with database_after_append show ?thesis by metis
    qed
  qed
  from run_ops_append database_after_append gui show ?thesis by blast
qed

subsection \<open>Validated input and the \<open>None\<close> result\<close>

text \<open>
  C9, counterexample. The height \<open>1e-200\<close> is positive and below 2.5, so
  \<open>validate_input\<close> accepts it; its square underflows to 0.0, the division raises
  \<open>ZeroDivisionError\<close>, and \<open>calculate_bmi\<close> returns \<open>None\<close>.
\<close>

theorem tiny_height_counterexample:
  "validate_input example_platform (PyStr ''70'') (PyStr ''1e-200'') = (True, ''Valid input'')
   \<and> calculate_bmi example_platform (PyStr ''70'') (PyStr ''1e-200'') = Inr None"
proof -
  note h = py_float_1e_200 [of example_platform]
  note w = py_float_ascii(1) [of example_platform]
  have v: "validate_input example_platform (PyStr ''70'') (PyStr ''1e-200'')
      = (True, ''Valid input'')"
    unfolding validate_input_def h w by simp
  have c: "calculate_bmi example_platform (PyStr ''70'') (PyStr ''1e-200'') = Inr None"
    unfolding calculate_bmi_def bmi_expression_def h w
    using square_1e_200_underflows by (simp add: handled_def del: flt_square.simps)
  from v c show ?thesis by blast
qed

text \<open>
  C9, as amended. Where the C library's \<open>pow\<close> is faithful: for every weight and
  height that \<open>validate_input\<close> accepts, \<open>calculate_bmi\<close> raises nothing and returns
  \<open>None\<close> exactly when the square of the height is zero in float arithmetic; for an
  accepted height of at least \<open>2\<^sup>-\<^sup>5\<^sup>3\<^sup>7\<close> (about 2.2e-162) it returns a BMI.
\<close>

theorem accepted_input_calculates:
  assumes "pow_faithful (c_pow2 P)"
    and "validate_input P w h = (True, msg)"
  shows "(calculate_bmi P w h = Inr None \<longleftrightarrow>
            (\<exists>hf. py_float P h = Inr hf \<and> flt_square P hf = Inr (Fin 0)))
         \<and> (\<forall>e. calculate_bmi P w h \<noteq> Inl e)
         \<and> (\<forall>y. py_float P h = Inr (Fin y) \<and> 1 / 2 ^ 537 \<le> y
               \<longrightarrow> (\<exists>b. calculate_bmi P w h = Inr (Some b)))"
proof -
  from assms(2) obtain wf hf where
    w: "py_float P w = Inr wf" and h: "py_float P h = Inr hf"
    and hr: "hf = NaN \<or> (\<exists>y. hf = Fin y \<and> 0 < y \<and> y \<le> 2.5)"
    unfolding validate_input_True by blast
  have none: "calculate_bmi P w h = Inr None \<longleftrightarrow>
      (\<exists>hf. py_float P h = Inr hf \<and> flt_square P hf = Inr (Fin 0))"
    unfolding bmi_None_when_handled bmi_expression_handled using w h by auto
  have "\<exists>h2. flt_square P hf = Inr h2"
  proof (cases "hf = NaN")
    case True
    then show ?thesis by simp
  next
    case False
    with hr obtain y where "hf = Fin y" "0 < y" "y \<le> 2.5" by blast
    with flt_square_accepted [OF assms(1), of y] show ?thesis by blast
  qed
  then obtain h2 where sq: "flt_square P hf = Inr h2" by blast
  have no_exn: "calculate_bmi P w h \<noteq> Inl e" for e
  proof (cases "flt_div wf h2")
    case (Inl x)
    then have "x = ZeroDivisionError" by (simp add: flt_div_error)
    with Inl show ?thesis
      by (simp add: calculate_bmi_def bmi_expression_def w h sq handled_def)
  next
    case (Inr q)
    then show ?thesis
      by (simp add: calculate_bmi_def bmi_expression_def w h sq)
  qed
  have some: "\<exists>b. calculate_bmi P w h = Inr (Some b)"
    if "py_float P h = Inr (Fin y)" "1 / 2 ^ 537 \<le> y" for y
  proof -
    have "flt_square P (Fin y) \<noteq> Inr (Fin 0)" using assms(1) that(2) by (rule flt_square_nonzero)
    with that(1) none have "calculate_bmi P w h \<noteq> Inr None" by auto
    with no_exn show ?thesis
      by (cases "calculate_bmi P w h") (auto simp: not_None_eq)
  qed
  from none no_exn some show ?thesis by blast
qed

text \<open>
  C9, witness: weight 70 and height 1.75.
\<close>

theorem accepted_input_calculates_witness:
  "validate_input example_platform (PyStr ''70'') (PyStr ''1.75'') = (True, ''Valid input'')
   \<and> (\<exists>b. calculate_bmi example_platform (PyStr ''70'') (PyStr ''1.75'') = Inr (Some b))"
proof -
  have "(1::real) / 2 ^ 537 \<le> 1.75"
    by (rule order_trans [of _ 1]) simp_all
  with accepted_input_calculates [OF example_platform_faithful valid_70_175]
    py_float_ascii(4) [of example_platform] valid_70_175 [of example_platform]
  show ?thesis by blast
qed

subsection \<open>Read errors\<close>

text \<open>
  C10. When the query of \<open>get_user_history\<close> or of \<open>get_all_users\<close> raises
  \<open>sqlite3.Error\<close> (a fault during the call, or a missing table), the method returns
  the empty list.
\<close>

theorem read_errors_give_empty_list:
  "(sql_select_history fault db u = Inl e \<longrightarrow> get_user_history fault db u = [])
   \<and> (sql_select_users fault db = Inl e \<longrightarrow> get_all_users fault db = [])
   \<and> (fault \<or> db = None \<longrightarrow>
        sql_select_history fault db u = Inl SqliteError
        \<and> sql_select_users fault db = Inl SqliteError
        \<and> get_user_history fault db u = [] \<and> get_all_users fault db = [])"
  by (auto simp: get_user_history_def get_all_users_def sql_select_history_def
      sql_select_users_def)

text \<open>
  C10, witness: a faulty read of a table that holds a record, and a read of a missing
  table.
\<close>

theorem read_errors_give_empty_list_witness:
  "get_user_history True
     (Some [\<lparr>rec_id = 1, username = ''ann'', weight = PyFloat (Fin 60), height = PyFloat (Fin 1.6),
        bmi = Fin 23.44, category = ''Normal weight'', timestamp = ''2024-04-30 09:00:00''\<rparr>])
     ''ann'' = []
   \<and> get_all_users True
     (Some [\<lparr>rec_id = 1, username = ''ann'', weight = PyFloat (Fin 60), height = PyFloat (Fin 1.6),
        bmi = Fin 23.44, category = ''Normal weight'', timestamp = ''2024-04-30 09:00:00''\<rparr>])
     = []
   \<and> get_user_history False None ''ann'' = []"
  using read_errors_give_empty_list [of True
      "Some [\<lparr>rec_id = 1, username = ''ann'', weight = PyFloat (Fin 60), height = PyFloat (Fin 1.6),
        bmi = Fin 23.44, category = ''Normal weight'', timestamp = ''2024-04-30 09:00:00''\<rparr>]"
      "''ann''" SqliteError]
    read_errors_give_empty_list [of False None "''ann''" SqliteError]
  by blast

end
